theory Spec2Isabelle
  imports Main
begin

section \<open>The polling request queue of myJS.js\<close>

text \<open>
  The script keeps one global array \<open>ajaxList\<close> of outstanding requests.
  \<open>newAJAXCommand\<close> appends a record to it, \<open>pollAJAX\<close> is the recurring
  tick that shifts records off its head, and \<open>getXMLValue\<close> reads one field
  out of a response document. The browser is the environment of the script: the
  clock, the transports, the document and the handlers passed as \<open>container\<close> are
  fields of the state \<open>world\<close>, and everything the script does to them is
  appended to a trace of events, in the order of the statements.
\<close>

subsection \<open>Documents\<close>

text \<open>
  A response document as the script reads it: the nodes of an XML tree. An element
  has a tag and child nodes; texts, CDATA sections, comments and processing
  instructions have a value and no children. \<open>None\<close> stands for JavaScript's
  \<open>null\<close> and \<open>undefined\<close>.
\<close>

datatype node =
    Element string "node list"
  | Text string
  | CDATASection string
  | Comment string
  | ProcessingInstruction string string

datatype error = TypeError | HandlerError

text \<open>The nodes below a node, in document order.\<close>

fun descendants :: "node \<Rightarrow> node list" where
  "descendants (Element t cs) = concat (map (\<lambda>c. c # descendants c) cs)"
| "descendants n = []"

text \<open>
  \<open>getElementsByTagName(f)\<close> collects the elements below an element whose tag is
  \<open>f\<close>, and every element when \<open>f\<close> is \<open>*\<close>. Only an element has the method: on
  any other node the call raises a TypeError.
\<close>

fun tagged :: "string \<Rightarrow> node \<Rightarrow> bool" where
  "tagged f (Element t cs) = (f = ''*'' \<or> t = f)"
| "tagged f n = False"

fun getElementsByTagName :: "node \<Rightarrow> string \<Rightarrow> error + node list" where
  "getElementsByTagName (Element t cs) f = Inr (filter (tagged f) (descendants (Element t cs)))"
| "getElementsByTagName n f = Inl TypeError"

fun item0 :: "node list \<Rightarrow> node option" where
  "item0 [] = None"
| "item0 (n # ns) = Some n"

fun firstChild :: "node \<Rightarrow> node option" where
  "firstChild (Element t (c # cs)) = Some c"
| "firstChild n = None"

fun nodeValue :: "node \<Rightarrow> string option" where
  "nodeValue (Element t cs) = None"
| "nodeValue (Text s) = Some s"
| "nodeValue (CDATASection s) = Some s"
| "nodeValue (Comment s) = Some s"
| "nodeValue (ProcessingInstruction t d) = Some d"

fun truthy :: "string option \<Rightarrow> bool" where
  "truthy None = False"
| "truthy (Some s) = (s \<noteq> [])"

text \<open>
  The expression \<open>xmlData.getElementsByTagName(field)[0].firstChild.nodeValue\<close>:
  reading a property of \<open>null\<close> or \<open>undefined\<close> raises a TypeError.
\<close>

definition field_value :: "node option \<Rightarrow> string \<Rightarrow> error + string option" where
  "field_value xmlData field =
     (case xmlData of
        None \<Rightarrow> Inl TypeError
      | Some d \<Rightarrow>
          (case getElementsByTagName d field of
             Inl err \<Rightarrow> Inl err
           | Inr es \<Rightarrow>
               (case item0 es of
                  None \<Rightarrow> Inl TypeError
                | Some e \<Rightarrow>
                    (case firstChild e of
                       None \<Rightarrow> Inl TypeError
                     | Some c \<Rightarrow> Inr (nodeValue c)))))"

text \<open>The body of the \<open>try\<close> block: the expression is evaluated for the test and again for the \<open>return\<close>.\<close>

definition getXMLValue_try :: "node option \<Rightarrow> string \<Rightarrow> error + string option" where
  "getXMLValue_try xmlData field =
     (case field_value xmlData field of
        Inl err \<Rightarrow> Inl err
      | Inr v \<Rightarrow> if truthy v then field_value xmlData field else Inr None)"

definition getXMLValue :: "node option \<Rightarrow> string \<Rightarrow> error + string option" where
  "getXMLValue xmlData field =
     (case getXMLValue_try xmlData field of
        Inl err \<Rightarrow> Inr None
      | Inr v \<Rightarrow> Inr v)"

text \<open>
  The extractor in the words of the specification: the first element named
  \<open>fieldName\<close> in the body, and its text content, which is the text of all the
  texts and CDATA sections below it, in order; \<open>null\<close> when the body is absent or
  cannot be traversed, the element is absent, or it has no text content.
\<close>

fun text_content :: "node \<Rightarrow> string" where
  "text_content (Element t cs) = concat (map text_content cs)"
| "text_content (Text s) = s"
| "text_content (CDATASection s) = s"
| "text_content (Comment s) = []"
| "text_content (ProcessingInstruction t d) = []"

fun named :: "string \<Rightarrow> node \<Rightarrow> bool" where
  "named f (Element t cs) = (t = f)"
| "named f n = False"

definition extractField :: "node option \<Rightarrow> string \<Rightarrow> string option" where
  "extractField body fieldName =
     (case body of
        None \<Rightarrow> None
      | Some d \<Rightarrow>
          (case find (named fieldName) (descendants d) of
             None \<Rightarrow> None
           | Some e \<Rightarrow> if text_content e = [] then None else Some (text_content e)))"

subsection \<open>Records, transports and the page\<close>

text \<open>
  A \<open>container\<close> is whatever the caller passed: a function (named by a number; what
  it does when called belongs to the page), a string, or anything else, such as the
  \<open>undefined\<close> of a call that omits the argument. \<open>repeat\<close> is the truth value the
  script tests. A transport is an XMLHttpRequest with the properties the script reads;
  \<open>xid\<close> is the identity of the object.
\<close>

type_synonym handler = nat

datatype jsval = JFunction handler | JString string | JOther

record xhr =
  xid :: nat
  readyState :: nat
  status :: nat
  responseXML :: "node option"
  responseText :: string

record ajax =
  url :: string
  container :: jsval
  repeat :: bool
  ajaxReq :: "xhr option"
  lastCalled :: int

datatype event =
    Open nat string
  | Send nat "string option"
  | Abort nat
  | Call handler "node option"
  | SetInnerHTML string string
  | Alert string
  | SetTimeout string nat
  | Shift "ajax option"
  | Push ajax

text \<open>
  \<open>clock\<close> and \<open>reads\<close>: the \<open>n\<close>-th \<open>new Date()\<close> of the page reads \<open>clock n\<close>.
  \<open>hasXMLHttpRequest\<close> and \<open>hasActiveXObject\<close> are the truth values of
  \<open>window.XMLHttpRequest\<close> and \<open>window.ActiveXObject\<close>. \<open>throws h a\<close> tells
  whether the function \<open>h\<close> called with \<open>a\<close> raises, and \<open>hasElement i\<close> whether
  \<open>document.getElementById(i)\<close> is an element rather than \<open>null\<close>.

  A call of a function container is an event, followed by its exception if it
  raises. The functions this script passes, \<open>UpdateStatusD\<close> and
  \<open>UpdateStatusL\<close>, reach the queue only through \<open>setTimeout\<close>, after the tick, so a
  call leaves \<open>ajaxList\<close> as it is. \<open>open\<close>, \<open>send\<close> and \<open>abort\<close> of a transport
  return without raising.
\<close>

record world =
  ajaxList :: "ajax list"
  trace :: "event list"
  clock :: "nat \<Rightarrow> int"
  reads :: nat
  next_xid :: nat
  hasXMLHttpRequest :: bool
  hasActiveXObject :: bool
  throws :: "handler \<Rightarrow> node option \<Rightarrow> bool"
  hasElement :: "string \<Rightarrow> bool"

datatype outcome = Done world | Thrown error world

definition timeOutMS :: int where
  "timeOutMS = 30000"

definition emit :: "event \<Rightarrow> world \<Rightarrow> world" where
  "emit e w = w\<lparr>trace := trace w @ [e]\<rparr>"

definition new_Date :: "world \<Rightarrow> int \<times> world" where
  "new_Date w = (clock w (reads w), w\<lparr>reads := Suc (reads w)\<rparr>)"

subsection \<open>newAJAXCommand\<close>

text \<open>
  A transport that has been opened and sent: \<open>readyState\<close> 1, no status and no
  response yet.
\<close>

definition open_send :: "string \<Rightarrow> string option \<Rightarrow> world \<Rightarrow> xhr \<times> world" where
  "open_send u data w =
     (\<lparr>xid = next_xid w, readyState = 1, status = 0, responseXML = None, responseText = []\<rparr>,
      emit (Send (next_xid w) data) (emit (Open (next_xid w) u) (w\<lparr>next_xid := Suc (next_xid w)\<rparr>)))"

text \<open>
  Lines 11 to 22: \<open>ajaxReq\<close> starts as \<open>null\<close> and stays so when the window has
  neither transport. An ActiveX object, once constructed, passes the test of line 18.
\<close>

definition new_transport :: "string \<Rightarrow> string option \<Rightarrow> world \<Rightarrow> xhr option \<times> world" where
  "new_transport u data w =
     (if hasXMLHttpRequest w then (case open_send u data w of (x, w') \<Rightarrow> (Some x, w'))
      else if hasActiveXObject w then (case open_send u data w of (x, w') \<Rightarrow> (Some x, w'))
      else (None, w))"

definition newAJAXCommand :: "string \<Rightarrow> jsval \<Rightarrow> bool \<Rightarrow> string option \<Rightarrow> world \<Rightarrow> world" where
  "newAJAXCommand u c rp data w =
     (case new_Date w of (theTimer, w1) \<Rightarrow>
      (case new_transport u data w1 of (req, w2) \<Rightarrow>
         (let newAjax = \<lparr>url = u, container = c, repeat = rp, ajaxReq = req, lastCalled = theTimer\<rparr>
          in emit (Push newAjax) (w2\<lparr>ajaxList := ajaxList w2 @ [newAjax]\<rparr>))))"

subsection \<open>pollAJAX\<close>

definition failure_message :: string where
  "failure_message = ''Command failed.'' @ [CHR 0x0A] @ ''Connection to SmartLinc was lost.''"

text \<open>\<open>curAjax.ajaxReq.abort(); curAjax.ajaxReq = null;\<close> (lines 45, 46 and 58, 59).\<close>

definition abort_release :: "ajax \<Rightarrow> world \<Rightarrow> outcome" where
  "abort_release r w =
     (case ajaxReq r of
        None \<Rightarrow> Thrown TypeError w
      | Some x \<Rightarrow> Done (emit (Abort (xid x)) w))"

text \<open>\<open>if(curAjax.repeat) newAJAXCommand(curAjax.url, curAjax.container, curAjax.repeat);\<close>\<close>

definition reissue :: "ajax \<Rightarrow> world \<Rightarrow> world" where
  "reissue r w =
     (if repeat r then newAJAXCommand (url r) (container r) (repeat r) None w else w)"

definition resolve :: "ajax \<Rightarrow> world \<Rightarrow> outcome" where
  "resolve r w =
     (case abort_release r w of
        Done w' \<Rightarrow> Done (reissue r w')
      | Thrown e w' \<Rightarrow> Thrown e w')"

text \<open>Calling a function container: the call is made, and its exception, if any, propagates.\<close>

definition call_container :: "handler \<Rightarrow> node option \<Rightarrow> world \<Rightarrow> outcome" where
  "call_container h a w =
     (if throws w h a then Thrown HandlerError (emit (Call h a) w)
      else Done (emit (Call h a) w))"

text \<open>Lines 39 to 43.\<close>

definition dispatch_ready :: "ajax \<Rightarrow> xhr \<Rightarrow> world \<Rightarrow> outcome" where
  "dispatch_ready r x w =
     (case container r of
        JFunction h \<Rightarrow>
          (case responseXML x of
             None \<Rightarrow> Thrown TypeError w
           | Some d \<Rightarrow> call_container h (Some d) w)
      | JString s \<Rightarrow>
          (if hasElement w s then Done (emit (SetInnerHTML s (responseText x)) w)
           else Thrown TypeError w)
      | JOther \<Rightarrow> Done w)"

text \<open>Lines 53 to 57.\<close>

definition dispatch_timeout :: "ajax \<Rightarrow> world \<Rightarrow> outcome" where
  "dispatch_timeout r w =
     (case container r of
        JFunction h \<Rightarrow> call_container h None w
      | JString s \<Rightarrow> Done (emit (Alert failure_message) w)
      | JOther \<Rightarrow> Done (emit (Alert failure_message) w))"

text \<open>
  Lines 37 to 64, for the record \<open>curAjax\<close> that line 34 shifted off the queue;
  \<open>now\<close> is \<open>theTimer.getTime()\<close>.
\<close>

definition pollAJAX_body :: "int \<Rightarrow> ajax \<Rightarrow> world \<Rightarrow> outcome" where
  "pollAJAX_body now curAjax w =
     (let elapsed = now - lastCalled curAjax in
      case ajaxReq curAjax of
        None \<Rightarrow> Thrown TypeError w
      | Some x \<Rightarrow>
          if readyState x = 4 \<and> status x = 200 then
            (case dispatch_ready curAjax x w of
               Done w' \<Rightarrow> resolve curAjax w'
             | Thrown e w' \<Rightarrow> Thrown e w')
          else if elapsed > timeOutMS then
            (case dispatch_timeout curAjax w of
               Done w' \<Rightarrow> resolve curAjax w'
             | Thrown e w' \<Rightarrow> Thrown e w')
          else Done (emit (Push curAjax) (w\<lparr>ajaxList := ajaxList w @ [curAjax]\<rparr>)))"

text \<open>
  One round of the \<open>for\<close> loop: the shift of line 34, the test of line 35 (the
  shift of an empty array gives \<open>undefined\<close>), and the rest of the body.
\<close>

definition pollAJAX_iter :: "int \<Rightarrow> world \<Rightarrow> outcome" where
  "pollAJAX_iter now w =
     (case ajaxList w of
        [] \<Rightarrow> Done (emit (Shift None) w)
      | curAjax # rest \<Rightarrow> pollAJAX_body now curAjax (emit (Shift (Some curAjax)) (w\<lparr>ajaxList := rest\<rparr>)))"

text \<open>The loop of line 32, counting \<open>i\<close> down from the length read once.\<close>

fun pollAJAX_loop :: "int \<Rightarrow> nat \<Rightarrow> world \<Rightarrow> outcome" where
  "pollAJAX_loop now 0 w = Done w"
| "pollAJAX_loop now (Suc i) w =
     (case pollAJAX_iter now w of
        Done w' \<Rightarrow> pollAJAX_loop now i w'
      | Thrown e w' \<Rightarrow> Thrown e w')"

definition pollAJAX :: "world \<Rightarrow> outcome" where
  "pollAJAX w =
     (case new_Date w of (theTimer, w1) \<Rightarrow>
      (case pollAJAX_loop theTimer (length (ajaxList w1)) w1 of
         Done w2 \<Rightarrow> Done (emit (SetTimeout ''pollAJAX()'' 10) w2)
       | Thrown e w2 \<Rightarrow> Thrown e w2))"

subsection \<open>Reading a trace\<close>

fun world_of :: "outcome \<Rightarrow> world" where
  "world_of (Done w) = w"
| "world_of (Thrown e w) = w"

fun raised :: "outcome \<Rightarrow> error option" where
  "raised (Done w) = None"
| "raised (Thrown e w) = Some e"

text \<open>The events a step added to the trace.\<close>

definition added :: "world \<Rightarrow> world \<Rightarrow> event list" where
  "added w w' = drop (length (trace w)) (trace w')"

fun shifted :: "event list \<Rightarrow> ajax option list" where
  "shifted [] = []"
| "shifted (Shift r # es) = r # shifted es"
| "shifted (e # es) = shifted es"

fun pushed :: "event list \<Rightarrow> ajax list" where
  "pushed [] = []"
| "pushed (Push r # es) = r # pushed es"
| "pushed (e # es) = pushed es"

text \<open>The dispatches: calls of a function container, writes to a named element, alerts.\<close>

fun is_dispatch :: "event \<Rightarrow> bool" where
  "is_dispatch (Call h a) = True"
| "is_dispatch (SetInnerHTML s t) = True"
| "is_dispatch (Alert m) = True"
| "is_dispatch e = False"

definition dispatches :: "event list \<Rightarrow> event list" where
  "dispatches es = filter is_dispatch es"

text \<open>
  The record \<open>newAJAXCommand u c rp data\<close> appends in \<open>w\<close>, with the transport it
  creates there, and the payloads of the \<open>send\<close> calls in a trace.
\<close>

definition fresh_transport :: "world \<Rightarrow> xhr option" where
  "fresh_transport w =
     (if hasXMLHttpRequest w \<or> hasActiveXObject w
      then Some \<lparr>xid = next_xid w, readyState = 1, status = 0, responseXML = None, responseText = []\<rparr>
      else None)"

definition issued :: "string \<Rightarrow> jsval \<Rightarrow> bool \<Rightarrow> world \<Rightarrow> ajax" where
  "issued u c rp w = \<lparr>url = u, container = c, repeat = rp, ajaxReq = fresh_transport w,
     lastCalled = clock w (reads w)\<rparr>"

fun payloads :: "event list \<Rightarrow> string option list" where
  "payloads [] = []"
| "payloads (Send i d # es) = d # payloads es"
| "payloads (e # es) = payloads es"

text \<open>The events of \<open>reissue\<close>: nothing, or a new command for the same url and container.\<close>

definition reissue_events :: "ajax \<Rightarrow> world \<Rightarrow> event list" where
  "reissue_events r w =
     (if repeat r
      then (case fresh_transport w of None \<Rightarrow> [] | Some x \<Rightarrow> [Open (xid x) (url r), Send (xid x) None])
           @ [Push (issued (url r) (container r) True w)]
      else [])"

text \<open>
  \<open>grows w w'\<close>: from \<open>w\<close> to \<open>w'\<close> the script only appended events, shifted
  nothing, and appended to the queue exactly the records it pushed.
\<close>

definition grows :: "world \<Rightarrow> world \<Rightarrow> bool" where
  "grows w w' \<longleftrightarrow>
     (\<exists>es. trace w' = trace w @ es \<and> shifted es = [] \<and> ajaxList w' = ajaxList w @ pushed es)"

text \<open>
  A call of a function that raises, and the event of \<open>setTimeout\<close>. \<open>careful w out\<close>:
  from \<open>w\<close> to the outcome \<open>out\<close> the functions of the page are the same, no timer
  was set, and no call raised, except the last event when the outcome is the exception
  of a function.
\<close>

fun faulty :: "world \<Rightarrow> event \<Rightarrow> bool" where
  "faulty w (Call h a) = throws w h a"
| "faulty w e = False"

fun is_timer :: "event \<Rightarrow> bool" where
  "is_timer (SetTimeout c d) = True"
| "is_timer e = False"

definition careful :: "world \<Rightarrow> outcome \<Rightarrow> bool" where
  "careful w out \<longleftrightarrow> throws (world_of out) = throws w \<and>
     (\<exists>es. trace (world_of out) = trace w @ es \<and> list_all (\<lambda>e. \<not> is_timer e) es \<and>
        (if raised out = Some HandlerError
         then es \<noteq> [] \<and> faulty w (last es) \<and> list_all (\<lambda>e. \<not> faulty w e) (butlast es)
         else list_all (\<lambda>e. \<not> faulty w e) es))"

text \<open>
  A world without its times: the clock, and the time of creation of the records in
  the queue and of the records pushed in the trace.
\<close>

definition timeless :: "ajax \<Rightarrow> ajax" where
  "timeless r = r\<lparr>lastCalled := 0\<rparr>"

fun timeless_event :: "event \<Rightarrow> event" where
  "timeless_event (Push r) = Push (timeless r)"
| "timeless_event e = e"

definition blur :: "world \<Rightarrow> world" where
  "blur w = w\<lparr>ajaxList := map timeless (ajaxList w), trace := map timeless_event (trace w),
     clock := (\<lambda>n. 0)\<rparr>"

fun blur_outcome :: "outcome \<Rightarrow> outcome" where
  "blur_outcome (Done w) = Done (blur w)"
| "blur_outcome (Thrown e w) = Thrown e (blur w)"

text \<open>
  What a round of the loop dispatches for a record, read off lines 38 to 57:
  \<open>now\<close> is the time the tick compares with, and \<open>present\<close> tells which
  elements the document has. \<open>pending now r\<close>: the record has a transport that has
  not answered, and its time is not up, so line 64 puts it back. \<open>older n r\<close>: the
  transport of the record was created before the page reached the transport number
  \<open>n\<close>.
\<close>

definition sink_events :: "int \<Rightarrow> (string \<Rightarrow> bool) \<Rightarrow> ajax \<Rightarrow> event list" where
  "sink_events now present r =
     (case ajaxReq r of
        None \<Rightarrow> []
      | Some x \<Rightarrow>
          if readyState x = 4 \<and> status x = 200 then
            (case container r of
               JFunction h \<Rightarrow> (case responseXML x of None \<Rightarrow> [] | Some d \<Rightarrow> [Call h (Some d)])
             | JString s \<Rightarrow> (if present s then [SetInnerHTML s (responseText x)] else [])
             | JOther \<Rightarrow> [])
          else if now - lastCalled r > 30000 then
            (case container r of
               JFunction h \<Rightarrow> [Call h None]
             | JString s \<Rightarrow> [Alert failure_message]
             | JOther \<Rightarrow> [Alert failure_message])
          else [])"

definition pending :: "int \<Rightarrow> ajax \<Rightarrow> bool" where
  "pending now r =
     (case ajaxReq r of
        None \<Rightarrow> False
      | Some x \<Rightarrow> \<not> (readyState x = 4 \<and> status x = 200) \<and> now - lastCalled r \<le> 30000)"

definition older :: "nat \<Rightarrow> ajax \<Rightarrow> bool" where
  "older n r = (case ajaxReq r of None \<Rightarrow> False | Some x \<Rightarrow> xid x < n)"

subsection \<open>A page and some records\<close>

text \<open>
  A page whose clock reads \<open>t\<close>, \<open>t + 1\<close>, ... and whose queue is \<open>q\<close>. It has
  XMLHttpRequest, one element \<open>RT\<close>, and three functions: 0 always returns, 1
  always raises, and 2 raises when it is called with \<open>null\<close>, as \<open>UpdateStatusD\<close>
  does when it reads \<open>MA[20].charAt\<close> after \<open>getXMLValue\<close> gave \<open>null\<close>.
\<close>

definition status_doc :: node where
  "status_doc = Element ''response'' [Element ''CDS'' [Text ''3'']]"

definition answered :: "nat \<Rightarrow> xhr" where
  "answered i = \<lparr>xid = i, readyState = 4, status = 200, responseXML = Some status_doc,
     responseText = ''<response><CDS>3</CDS></response>''\<rparr>"

definition in_flight :: "nat \<Rightarrow> xhr" where
  "in_flight i = \<lparr>xid = i, readyState = 1, status = 0, responseXML = None, responseText = []\<rparr>"

definition command :: "string \<Rightarrow> jsval \<Rightarrow> bool \<Rightarrow> xhr option \<Rightarrow> ajax" where
  "command u c rp x = \<lparr>url = u, container = c, repeat = rp, ajaxReq = x, lastCalled = 0\<rparr>"

definition page :: "int \<Rightarrow> ajax list \<Rightarrow> world" where
  "page t q = \<lparr>ajaxList = q, trace = [], clock = (\<lambda>n. t + int n), reads = 0, next_xid = 10,
     hasXMLHttpRequest = True, hasActiveXObject = False,
     throws = (\<lambda>h a. h = 1 \<or> (h = 2 \<and> a = None)), hasElement = (\<lambda>s. s = ''RT'')\<rparr>"

text \<open>
  Two queues: a command that has been answered, or one still in flight, issued at
  time 0 with container \<open>c\<close> and repeat \<open>rp\<close>, followed by a command in flight.
  And a page with neither XMLHttpRequest nor ActiveXObject, whose clock reads 5 and
  then 40005.
\<close>

definition page_answered :: "jsval \<Rightarrow> bool \<Rightarrow> world" where
  "page_answered c rp = page 5 [command ''statusD.xml'' c rp (Some (answered 0)),
     command ''rstatus.xml'' (JString ''RT'') False (Some (in_flight 1))]"

definition page_waiting :: "int \<Rightarrow> jsval \<Rightarrow> bool \<Rightarrow> world" where
  "page_waiting t c rp = page t [command ''statusD.xml'' c rp (Some (in_flight 0)),
     command ''rstatus.xml'' (JString ''RT'') False (Some (in_flight 1))]"

definition page_no_transport :: world where
  "page_no_transport = (page 5 [])\<lparr>clock := (\<lambda>n. 5 + 40000 * int n), hasXMLHttpRequest := False\<rparr>"

section \<open>Properties\<close>

lemmas script_defs = pollAJAX_def pollAJAX_iter_def pollAJAX_body_def dispatch_ready_def
  dispatch_timeout_def call_container_def resolve_def abort_release_def reissue_def
  newAJAXCommand_def new_transport_def open_send_def new_Date_def emit_def timeOutMS_def
  added_def dispatches_def Let_def

lemmas example_defs = page_def command_def answered_def in_flight_def status_doc_def
  page_answered_def page_waiting_def issued_def fresh_transport_def

subsection \<open>getXMLValue\<close>

lemma item0_filter: "item0 (filter P xs) = find P xs"
  by (induction xs) auto

lemma getXMLValue_element:
  "getXMLValue (Some (Element r rs)) f =
     Inr (case find (tagged f) (descendants (Element r rs)) of
            None \<Rightarrow> None
          | Some e \<Rightarrow>
              (case firstChild e of
                 None \<Rightarrow> None
               | Some c \<Rightarrow> if truthy (nodeValue c) then nodeValue c else None))"
  by (simp add: getXMLValue_def getXMLValue_try_def field_value_def item0_filter
      split: option.splits)

lemma getXMLValue_other:
  "getXMLValue None f = Inr None"
  "getXMLValue (Some (Text s)) f = Inr None"
  "getXMLValue (Some (CDATASection s)) f = Inr None"
  "getXMLValue (Some (Comment s)) f = Inr None"
  "getXMLValue (Some (ProcessingInstruction t s)) f = Inr None"
  by (simp_all add: getXMLValue_def getXMLValue_try_def field_value_def)

lemma getXMLValue_returns: "\<exists>v. getXMLValue body f = Inr v"
proof (cases body)
  case None
  then show ?thesis by (simp add: getXMLValue_other)
next
  case (Some d)
  then show ?thesis
    by (cases d) (simp_all add: getXMLValue_element getXMLValue_other)
qed

lemma tagged_named: "f \<noteq> ''*'' \<Longrightarrow> tagged f = named f"
proof
  fix n
  assume "f \<noteq> ''*''"
  then show "tagged f n = named f n" by (cases n) simp_all
qed

text \<open>
  C8, as the script has it. \<open>getXMLValue\<close> never raises: for every body and field
  it returns a value. The value is \<open>null\<close> when the body is \<open>null\<close> or is not an
  element, when no element below the body is named \<open>field\<close>, when the first such
  element has no child, and when the value of its first child is \<open>null\<close> or empty;
  otherwise it is the value of that first child. For an element that holds one text
  and nothing else this is the text content of the specification. The search goes
  through all levels below the body in document order and does not match the body
  itself; for the field \<open>*\<close> it takes the first element of any name. A first
  child that is a CDATA section or a comment gives its content. A body without a
  \<open>CDS\<close> element gives \<open>null\<close>, and a body containing \<open><CDS>3</CDS>\<close> gives
  \<open>3\<close>.
\<close>

theorem getXMLValue_never_raises:
  "(\<exists>v. getXMLValue body field = Inr v)
   \<and> getXMLValue None field = Inr None
   \<and> getXMLValue (Some (Text s)) field = Inr None
   \<and> (find (tagged field) (descendants (Element r rs)) = None \<longrightarrow>
         getXMLValue (Some (Element r rs)) field = Inr None)
   \<and> (find (tagged field) (descendants (Element r rs)) = Some (Element t []) \<longrightarrow>
         getXMLValue (Some (Element r rs)) field = Inr None)
   \<and> (find (tagged field) (descendants (Element r rs)) = Some (Element t (c # cs)) \<longrightarrow>
         getXMLValue (Some (Element r rs)) field
           = Inr (if truthy (nodeValue c) then nodeValue c else None))
   \<and> (field \<noteq> ''*'' \<and> find (named field) (descendants (Element r rs)) = Some (Element t [Text s]) \<longrightarrow>
         getXMLValue (Some (Element r rs)) field = Inr (extractField (Some (Element r rs)) field))
   \<and> getXMLValue (Some (Element ''response'' [Element ''RT'' [Text ''12:00'']])) ''CDS'' = Inr None
   \<and> getXMLValue (Some (Element ''response'' [Element ''RT'' [Text ''12:00''], Element ''CDS'' [Text ''3'']])) ''CDS''
        = Inr (Some ''3'')
   \<and> getXMLValue (Some (Element ''response'' [Element ''S'' [Element ''CDS'' [Text ''1'']], Element ''CDS'' [Text ''2'']])) ''CDS''
        = Inr (Some ''1'')
   \<and> getXMLValue (Some (Element ''CDS'' [Text ''3''])) ''CDS'' = Inr None
   \<and> getXMLValue (Some (Element ''response'' [Element ''RT'' [Text ''12:00''], Element ''CDS'' [Text ''3'']])) ''*''
        = Inr (Some ''12:00'')
   \<and> getXMLValue (Some (Element ''response'' [Element ''CDS'' [CDATASection ''3'']])) ''CDS'' = Inr (Some ''3'')
   \<and> getXMLValue (Some (Element ''response'' [Element ''CDS'' [Comment ''note'', Text ''3'']])) ''CDS''
        = Inr (Some ''note'')
   \<and> getXMLValue (Some (Element ''response'' [Element ''CDS'' [Text []]])) ''CDS'' = Inr None"
proof -
  have a: "field \<noteq> ''*'' \<and> find (named field) (descendants (Element r rs)) = Some (Element t [Text s]) \<longrightarrow>
         getXMLValue (Some (Element r rs)) field = Inr (extractField (Some (Element r rs)) field)"
  proof (intro impI, elim conjE)
    assume n: "field \<noteq> ''*''" and f: "find (named field) (descendants (Element r rs)) = Some (Element t [Text s])"
    from f have g: "find (tagged field) (descendants (Element r rs)) = Some (Element t [Text s])"
      by (simp only: tagged_named [OF n])
    show "getXMLValue (Some (Element r rs)) field = Inr (extractField (Some (Element r rs)) field)"
      by (simp add: getXMLValue_element g extractField_def f del: descendants.simps)
  qed
  have b: "\<exists>v. getXMLValue body field = Inr v"
    by (rule getXMLValue_returns)
  have c: "find (tagged field) (descendants (Element r rs)) = None \<longrightarrow>
         getXMLValue (Some (Element r rs)) field = Inr None"
    by (simp only: getXMLValue_element) simp
  have d: "find (tagged field) (descendants (Element r rs)) = Some (Element t []) \<longrightarrow>
         getXMLValue (Some (Element r rs)) field = Inr None"
    by (simp only: getXMLValue_element) simp
  have e: "find (tagged field) (descendants (Element r rs)) = Some (Element t (c # cs)) \<longrightarrow>
         getXMLValue (Some (Element r rs)) field
           = Inr (if truthy (nodeValue c) then nodeValue c else None)"
    by (simp only: getXMLValue_element) simp
  have x: "getXMLValue (Some (Element ''response'' [Element ''RT'' [Text ''12:00'']])) ''CDS'' = Inr None"
    "getXMLValue (Some (Element ''response'' [Element ''RT'' [Text ''12:00''], Element ''CDS'' [Text ''3'']])) ''CDS''
        = Inr (Some ''3'')"
    "getXMLValue (Some (Element ''response'' [Element ''S'' [Element ''CDS'' [Text ''1'']], Element ''CDS'' [Text ''2'']])) ''CDS''
        = Inr (Some ''1'')"
    "getXMLValue (Some (Element ''CDS'' [Text ''3''])) ''CDS'' = Inr None"
    "getXMLValue (Some (Element ''response'' [Element ''RT'' [Text ''12:00''], Element ''CDS'' [Text ''3'']])) ''*''
        = Inr (Some ''12:00'')"
    "getXMLValue (Some (Element ''response'' [Element ''CDS'' [CDATASection ''3'']])) ''CDS'' = Inr (Some ''3'')"
    "getXMLValue (Some (Element ''response'' [Element ''CDS'' [Comment ''note'', Text ''3'']])) ''CDS''
        = Inr (Some ''note'')"
    "getXMLValue (Some (Element ''response'' [Element ''CDS'' [Text []]])) ''CDS'' = Inr None"
    by (simp_all add: getXMLValue_def getXMLValue_try_def field_value_def)
  from a b c d e x getXMLValue_other(1) [of field] getXMLValue_other(2) [of s field]
  show ?thesis by (intro conjI)
qed

text \<open>
  A document whose \<open>CDS\<close> lies two levels below the body, after a comment: the value
  is \<open>3\<close>, and it is the text content.
\<close>

theorem getXMLValue_never_raises_witness:
  "find (named ''CDS'') (descendants (Element ''response''
       [Comment ''status'', Element ''S'' [Element ''CDS'' [Text ''3'']], Element ''RT'' [Text ''12:00'']]))
     = Some (Element ''CDS'' [Text ''3''])
   \<and> getXMLValue (Some (Element ''response''
       [Comment ''status'', Element ''S'' [Element ''CDS'' [Text ''3'']], Element ''RT'' [Text ''12:00'']])) ''CDS''
     = Inr (Some ''3'')
   \<and> extractField (Some (Element ''response''
       [Comment ''status'', Element ''S'' [Element ''CDS'' [Text ''3'']], Element ''RT'' [Text ''12:00'']])) ''CDS''
     = Some ''3''"
proof -
  let ?rs = "[Comment ''status'', Element ''S'' [Element ''CDS'' [Text ''3'']], Element ''RT'' [Text ''12:00'']]"
  have f: "find (named ''CDS'') (descendants (Element ''response'' ?rs)) = Some (Element ''CDS'' [Text ''3''])"
    by simp
  have n: "''CDS'' \<noteq> ''*''" by simp
  have v: "getXMLValue (Some (Element ''response'' ?rs)) ''CDS'' = Inr (Some ''3'')"
    by (simp add: getXMLValue_def getXMLValue_try_def field_value_def)
  from getXMLValue_never_raises [of "Some (Element ''response'' ?rs)" "''CDS''" "''3''" "''response''" ?rs "''CDS''"]
  have "''CDS'' \<noteq> ''*'' \<and> find (named ''CDS'') (descendants (Element ''response'' ?rs)) = Some (Element ''CDS'' [Text ''3'']) \<longrightarrow>
      getXMLValue (Some (Element ''response'' ?rs)) ''CDS'' = Inr (extractField (Some (Element ''response'' ?rs)) ''CDS'')"
    by blast
  with n f have "getXMLValue (Some (Element ''response'' ?rs)) ''CDS'' = Inr (extractField (Some (Element ''response'' ?rs)) ''CDS'')"
    by blast
  with v have e: "extractField (Some (Element ''response'' ?rs)) ''CDS'' = Some ''3''"
    by simp
  from f v e show ?thesis by (intro conjI)
qed

text \<open>
  The claim as the specification states it fails where the element holds more than
  one text: for \<open><CDS><b>x</b>3</CDS>\<close> the element has the text content \<open>x3\<close> and
  the script returns \<open>null\<close>, because the first child is an element; for
  \<open><CDS>3<b>4</b></CDS>\<close> it returns \<open>3\<close>, not \<open>34\<close>; for
  \<open><CDS><!--note-->3</CDS>\<close> it returns the comment. And for the field \<open>*\<close>,
  the name of no element, it returns the value of the first element of the body.
\<close>

theorem getXMLValue_never_raises_counterexample:
  "extractField (Some (Element ''response'' [Element ''CDS'' [Element ''b'' [Text ''x''], Text ''3'']])) ''CDS''
     = Some ''x3''
   \<and> getXMLValue (Some (Element ''response'' [Element ''CDS'' [Element ''b'' [Text ''x''], Text ''3'']])) ''CDS''
     = Inr None
   \<and> extractField (Some (Element ''response'' [Element ''CDS'' [Text ''3'', Element ''b'' [Text ''4'']]])) ''CDS''
     = Some ''34''
   \<and> getXMLValue (Some (Element ''response'' [Element ''CDS'' [Text ''3'', Element ''b'' [Text ''4'']]])) ''CDS''
     = Inr (Some ''3'')
   \<and> extractField (Some (Element ''response'' [Element ''CDS'' [Comment ''note'', Text ''3'']])) ''CDS''
     = Some ''3''
   \<and> getXMLValue (Some (Element ''response'' [Element ''CDS'' [Comment ''note'', Text ''3'']])) ''CDS''
     = Inr (Some ''note'')
   \<and> extractField (Some (Element ''response'' [Element ''CDS'' [Text ''3'']])) ''*'' = None
   \<and> getXMLValue (Some (Element ''response'' [Element ''CDS'' [Text ''3'']])) ''*'' = Inr (Some ''3'')"
  by (simp add: getXMLValue_def getXMLValue_try_def field_value_def extractField_def)

subsection \<open>The tick and its snapshot\<close>

lemma emit_simps [simp]:
  "ajaxList (emit e w) = ajaxList w"
  "trace (emit e w) = trace w @ [e]"
  "clock (emit e w) = clock w"
  "reads (emit e w) = reads w"
  "next_xid (emit e w) = next_xid w"
  "hasXMLHttpRequest (emit e w) = hasXMLHttpRequest w"
  "hasActiveXObject (emit e w) = hasActiveXObject w"
  "throws (emit e w) = throws w"
  "hasElement (emit e w) = hasElement w"
  by (simp_all add: emit_def)

lemma shifted_append [simp]: "shifted (xs @ ys) = shifted xs @ shifted ys"
  by (induction xs rule: shifted.induct) auto

lemma pushed_append [simp]: "pushed (xs @ ys) = pushed xs @ pushed ys"
  by (induction xs rule: pushed.induct) auto

lemma dispatches_append [simp]: "dispatches (xs @ ys) = dispatches xs @ dispatches ys"
  by (simp add: dispatches_def)

lemma added_append: "trace w' = trace w @ es \<Longrightarrow> added w w' = es"
  by (simp add: added_def)

lemma grows_refl: "grows w w"
  by (simp add: grows_def)

lemma grows_trans: "grows w w1 \<Longrightarrow> grows w1 w2 \<Longrightarrow> grows w w2"
  unfolding grows_def
  apply (elim exE conjE)
  subgoal for es es'
    by (rule exI [of _ "es @ es'"]) simp
  done

lemma grows_newAJAXCommand: "grows w (newAJAXCommand u c rp data w)"
  unfolding grows_def newAJAXCommand_def new_Date_def new_transport_def open_send_def
  by (auto simp: Let_def)

lemma grows_reissue: "grows w (reissue r w)"
  by (simp add: reissue_def grows_refl grows_newAJAXCommand)

lemma grows_emit: "shifted [e] = [] \<Longrightarrow> pushed [e] = [] \<Longrightarrow> grows w (emit e w)"
  by (simp add: grows_def)

lemma grows_resolve: "grows w (world_of (resolve r w))"
  by (auto simp: resolve_def abort_release_def grows_refl split: option.splits
      intro: grows_trans [OF grows_emit grows_reissue])

lemma grows_call_container: "grows w (world_of (call_container h a w))"
  by (simp add: call_container_def grows_emit)

lemma grows_dispatch_ready: "grows w (world_of (dispatch_ready r x w))"
  by (auto simp: dispatch_ready_def grows_refl grows_emit grows_call_container
      split: jsval.splits option.splits)

lemma grows_dispatch_timeout: "grows w (world_of (dispatch_timeout r w))"
  by (auto simp: dispatch_timeout_def grows_emit grows_call_container split: jsval.splits)

lemma grows_push: "grows w (emit (Push r) (w\<lparr>ajaxList := ajaxList w @ [r]\<rparr>))"
  by (simp add: grows_def)

lemma grows_body: "grows w (world_of (pollAJAX_body now r w))"
proof (cases "ajaxReq r")
  case None
  then show ?thesis by (simp add: pollAJAX_body_def grows_refl)
next
  case (Some x)
  have a: "grows w (world_of (case dispatch_ready r x w of Done w' \<Rightarrow> resolve r w' | Thrown e w' \<Rightarrow> Thrown e w'))"
    using grows_dispatch_ready [of w r x]
    by (cases "dispatch_ready r x w") (auto intro: grows_trans grows_resolve)
  have b: "grows w (world_of (case dispatch_timeout r w of Done w' \<Rightarrow> resolve r w' | Thrown e w' \<Rightarrow> Thrown e w'))"
    using grows_dispatch_timeout [of w r]
    by (cases "dispatch_timeout r w") (auto intro: grows_trans grows_resolve)
  from Some a b show ?thesis
    by (simp add: pollAJAX_body_def Let_def grows_push)
qed

lemma iter_cons:
  assumes "ajaxList w = r # rest"
  shows "\<exists>es. trace (world_of (pollAJAX_iter now w)) = trace w @ Shift (Some r) # es
            \<and> shifted es = [] \<and> ajaxList (world_of (pollAJAX_iter now w)) = rest @ pushed es"
proof -
  let ?w1 = "emit (Shift (Some r)) (w\<lparr>ajaxList := rest\<rparr>)"
  have "grows ?w1 (world_of (pollAJAX_body now r ?w1))"
    by (rule grows_body)
  then obtain es where "trace (world_of (pollAJAX_body now r ?w1)) = trace ?w1 @ es"
    "shifted es = []" "ajaxList (world_of (pollAJAX_body now r ?w1)) = ajaxList ?w1 @ pushed es"
    unfolding grows_def by blast
  with assms show ?thesis
    by (simp add: pollAJAX_iter_def)
qed

lemma loop_snapshot:
  "ajaxList w = qs @ p \<Longrightarrow>
   \<exists>es m. trace (world_of (pollAJAX_loop now (length qs) w)) = trace w @ es
     \<and> m \<le> length qs
     \<and> shifted es = map Some (take m qs)
     \<and> ajaxList (world_of (pollAJAX_loop now (length qs) w)) = drop m qs @ p @ pushed es
     \<and> (raised (pollAJAX_loop now (length qs) w) = None \<longrightarrow> m = length qs)
     \<and> (raised (pollAJAX_loop now (length qs) w) \<noteq> None \<longrightarrow> 0 < m)"
proof (induction qs arbitrary: w p)
  case Nil
  then show ?case by simp
next
  case (Cons q qs)
  from Cons.prems have q: "ajaxList w = q # (qs @ p)" by simp
  from iter_cons [OF q, of now] obtain es1 where
    es1: "trace (world_of (pollAJAX_iter now w)) = trace w @ Shift (Some q) # es1"
      "shifted es1 = []" "ajaxList (world_of (pollAJAX_iter now w)) = (qs @ p) @ pushed es1"
    by blast
  show ?case
  proof (cases "pollAJAX_iter now w")
    case (Done w1)
    define out where "out = pollAJAX_loop now (length qs) w1"
    from Done have out: "pollAJAX_loop now (length (q # qs)) w = out"
      by (simp add: out_def)
    from Done es1 have w1: "trace w1 = trace w @ Shift (Some q) # es1" "ajaxList w1 = qs @ (p @ pushed es1)"
      by simp_all
    have "\<exists>es2 m. trace (world_of out) = trace w1 @ es2
        \<and> m \<le> length qs \<and> shifted es2 = map Some (take m qs)
        \<and> ajaxList (world_of out) = drop m qs @ (p @ pushed es1) @ pushed es2
        \<and> (raised out = None \<longrightarrow> m = length qs)
        \<and> (raised out \<noteq> None \<longrightarrow> 0 < m)"
      unfolding out_def by (rule Cons.IH [OF w1(2)])
    then obtain es2 m where ih:
      "trace (world_of out) = trace w1 @ es2"
      "m \<le> length qs" "shifted es2 = map Some (take m qs)"
      "ajaxList (world_of out) = drop m qs @ (p @ pushed es1) @ pushed es2"
      "raised out = None \<longrightarrow> m = length qs"
      "raised out \<noteq> None \<longrightarrow> 0 < m"
      by (elim exE conjE)
    let ?es = "Shift (Some q) # es1 @ es2"
    have 1: "trace (world_of out) = trace w @ ?es"
      using ih(1) w1(1) by simp
    have 2: "Suc m \<le> length (q # qs)"
      using ih(2) by simp
    have 3: "shifted ?es = map Some (take (Suc m) (q # qs))"
      using ih(3) es1(2) by simp
    have 4: "ajaxList (world_of out) = drop (Suc m) (q # qs) @ p @ pushed ?es"
      using ih(4) by simp
    have 5: "raised out = None \<longrightarrow> Suc m = length (q # qs)"
      using ih(5) by simp
    have 6: "raised out \<noteq> None \<longrightarrow> 0 < Suc m"
      by simp
    show ?thesis
      unfolding out
    proof (intro exI conjI)
      show "trace (world_of out) = trace w @ ?es" by (rule 1)
      show "Suc m \<le> length (q # qs)" by (rule 2)
      show "shifted ?es = map Some (take (Suc m) (q # qs))" by (rule 3)
      show "ajaxList (world_of out) = drop (Suc m) (q # qs) @ p @ pushed ?es" by (rule 4)
      show "raised out = None \<longrightarrow> Suc m = length (q # qs)" by (rule 5)
      show "raised out \<noteq> None \<longrightarrow> 0 < Suc m" by (rule 6)
    qed
  next
    case (Thrown e w1)
    then have out: "pollAJAX_loop now (length (q # qs)) w = Thrown e w1"
      by simp
    let ?es = "Shift (Some q) # es1"
    from Thrown es1 have 1: "trace w1 = trace w @ ?es" and 4: "ajaxList w1 = drop (Suc 0) (q # qs) @ p @ pushed ?es"
      by simp_all
    have 3: "shifted ?es = map Some (take (Suc 0) (q # qs))"
      using es1(2) by simp
    have 2: "Suc 0 \<le> length (q # qs)" by simp
    show ?thesis
      unfolding out
      apply (rule exI [of _ ?es])
      apply (rule exI [of _ "Suc 0"])
      using 1 2 3 4 apply simp
      done
  qed
qed

lemma pollAJAX_unfold:
  "pollAJAX w =
     (case pollAJAX_loop (clock w (reads w)) (length (ajaxList w)) (w\<lparr>reads := Suc (reads w)\<rparr>) of
        Done w2 \<Rightarrow> Done (emit (SetTimeout ''pollAJAX()'' 10) w2)
      | Thrown e w2 \<Rightarrow> Thrown e w2)"
  by (simp add: pollAJAX_def new_Date_def)

lemma pollAJAX_events:
  "\<exists>es m. trace (world_of (pollAJAX w))
        = trace w @ es @ (if raised (pollAJAX w) = None then [SetTimeout ''pollAJAX()'' 10] else [])
     \<and> m \<le> length (ajaxList w)
     \<and> shifted es = map Some (take m (ajaxList w))
     \<and> ajaxList (world_of (pollAJAX w)) = drop m (ajaxList w) @ pushed es
     \<and> (raised (pollAJAX w) = None \<longrightarrow> m = length (ajaxList w))
     \<and> (raised (pollAJAX w) \<noteq> None \<longrightarrow> 0 < m)"
proof -
  let ?w1 = "w\<lparr>reads := Suc (reads w)\<rparr>"
  define out where "out = pollAJAX_loop (clock w (reads w)) (length (ajaxList w)) ?w1"
  have "ajaxList ?w1 = ajaxList w @ []" by simp
  from loop_snapshot [OF this, of "clock w (reads w)"]
  obtain es m where l:
    "trace (world_of out) = trace ?w1 @ es"
    "m \<le> length (ajaxList w)"
    "shifted es = map Some (take m (ajaxList w))"
    "ajaxList (world_of out) = drop m (ajaxList w) @ [] @ pushed es"
    "raised out = None \<longrightarrow> m = length (ajaxList w)"
    "raised out \<noteq> None \<longrightarrow> 0 < m"
    unfolding out_def by (elim exE conjE)
  have p: "pollAJAX w = (case out of Done w2 \<Rightarrow> Done (emit (SetTimeout ''pollAJAX()'' 10) w2)
      | Thrown e w2 \<Rightarrow> Thrown e w2)"
    unfolding out_def by (rule pollAJAX_unfold)
  have r: "raised (pollAJAX w) = raised out"
    unfolding p by (cases out) simp_all
  have t: "trace (world_of (pollAJAX w))
      = trace (world_of out) @ (if raised out = None then [SetTimeout ''pollAJAX()'' 10] else [])"
    unfolding p by (cases out) simp_all
  have q: "ajaxList (world_of (pollAJAX w)) = ajaxList (world_of out)"
    unfolding p by (cases out) simp_all
  show ?thesis
    unfolding r q t
  proof (intro exI conjI)
    show "trace (world_of out) @ (if raised out = None then [SetTimeout ''pollAJAX()'' 10] else [])
       = trace w @ es @ (if raised out = None then [SetTimeout ''pollAJAX()'' 10] else [])"
      using l(1) by simp
    show "m \<le> length (ajaxList w)" by (rule l(2))
    show "shifted es = map Some (take m (ajaxList w))" by (rule l(3))
    show "ajaxList (world_of out) = drop m (ajaxList w) @ pushed es" using l(4) by simp
    show "raised out = None \<longrightarrow> m = length (ajaxList w)" by (rule l(5))
    show "raised out \<noteq> None \<longrightarrow> 0 < m" by (rule l(6))
  qed
qed

text \<open>
  C1, as the script has it. In every tick the records shifted off the queue are the
  first \<open>n\<close> records of the queue as it was when the tick started, in order from its
  head, and \<open>n\<close> is at most the length that queue had; the queue after the tick is
  what is left of that queue followed by the records pushed during the tick, pending
  records put back and records issued for a repeat, so none of these was shifted by
  this tick. A tick that runs to its end shifts exactly as many records as the queue
  held at its start, and leaves in the queue the pushed records only.
\<close>

theorem pollAJAX_snapshot:
  assumes w': "w' = world_of (pollAJAX w)" and n: "n = length (shifted (added w w'))"
  shows "trace w' = trace w @ added w w'
     \<and> n \<le> length (ajaxList w)
     \<and> shifted (added w w') = map Some (take n (ajaxList w))
     \<and> ajaxList w' = drop n (ajaxList w) @ pushed (added w w')
     \<and> (raised (pollAJAX w) = None \<longrightarrow> n = length (ajaxList w) \<and> ajaxList w' = pushed (added w w'))
     \<and> (raised (pollAJAX w) \<noteq> None \<longrightarrow> 0 < n)"
proof -
  define tm where "tm = (if raised (pollAJAX w) = None then [SetTimeout ''pollAJAX()'' 10] else [])"
  from pollAJAX_events [of w] obtain es m where e:
    "trace w' = trace w @ es @ tm"
    "m \<le> length (ajaxList w)"
    "shifted es = map Some (take m (ajaxList w))"
    "ajaxList w' = drop m (ajaxList w) @ pushed es"
    "raised (pollAJAX w) = None \<longrightarrow> m = length (ajaxList w)"
    "raised (pollAJAX w) \<noteq> None \<longrightarrow> 0 < m"
    unfolding w' tm_def by (elim exE conjE)
  have t: "shifted tm = []" "pushed tm = []"
    by (simp_all add: tm_def)
  have a: "added w w' = es @ tm"
    using e(1) by (rule added_append)
  have s: "shifted (added w w') = map Some (take m (ajaxList w))"
    unfolding a using e(3) t by simp
  have p: "pushed (added w w') = pushed es"
    unfolding a using t by simp
  have nm: "n = m"
    unfolding n s using e(2) by simp
  show ?thesis
    unfolding nm p using e(1) e(2) e(4) e(5) e(6) s a by simp
qed

theorem pollAJAX_snapshot_witness:
  "raised (pollAJAX (page 5 [command ''a'' (JFunction 0) True (Some (answered 0)),
       command ''b'' (JString ''RT'') False (Some (in_flight 1)),
       command ''c'' JOther True (Some (answered 2))])) = None
   \<and> length (shifted (added (page 5 [command ''a'' (JFunction 0) True (Some (answered 0)),
         command ''b'' (JString ''RT'') False (Some (in_flight 1)),
         command ''c'' JOther True (Some (answered 2))])
       (world_of (pollAJAX (page 5 [command ''a'' (JFunction 0) True (Some (answered 0)),
         command ''b'' (JString ''RT'') False (Some (in_flight 1)),
         command ''c'' JOther True (Some (answered 2))]))))) = 3
   \<and> length (ajaxList (world_of (pollAJAX (page 5 [command ''a'' (JFunction 0) True (Some (answered 0)),
         command ''b'' (JString ''RT'') False (Some (in_flight 1)),
         command ''c'' JOther True (Some (answered 2))])))) = 3"
proof -
  define w where "w = page 5 [command ''a'' (JFunction 0) True (Some (answered 0)),
       command ''b'' (JString ''RT'') False (Some (in_flight 1)),
       command ''c'' JOther True (Some (answered 2))]"
  have r: "raised (pollAJAX w) = None"
    unfolding w_def by (simp add: script_defs example_defs)
  have n: "length (ajaxList w) = 3"
    unfolding w_def by (simp add: example_defs)
  have q: "length (ajaxList (world_of (pollAJAX w))) = 3"
    unfolding w_def by (simp add: script_defs example_defs)
  from pollAJAX_snapshot [OF refl refl, of w] r n q show ?thesis
    unfolding w_def [symmetric] by simp
qed

text \<open>
  The claim as the specification states it, for every tick, fails when a function
  container raises: the tick stops there. With two records in the queue, the first
  answered and handed to a function that raises, one record is shifted, not two, and
  the second is still at the head of the queue when \<open>pollAJAX\<close> is left.
\<close>

theorem pollAJAX_snapshot_counterexample:
  "length (ajaxList (page 5 [command ''a'' (JFunction 1) False (Some (answered 0)),
       command ''b'' (JString ''RT'') False (Some (in_flight 1))])) = 2
   \<and> length (shifted (added (page 5 [command ''a'' (JFunction 1) False (Some (answered 0)),
         command ''b'' (JString ''RT'') False (Some (in_flight 1))])
       (world_of (pollAJAX (page 5 [command ''a'' (JFunction 1) False (Some (answered 0)),
         command ''b'' (JString ''RT'') False (Some (in_flight 1))]))))) = 1
   \<and> ajaxList (world_of (pollAJAX (page 5 [command ''a'' (JFunction 1) False (Some (answered 0)),
         command ''b'' (JString ''RT'') False (Some (in_flight 1))])))
       = [command ''b'' (JString ''RT'') False (Some (in_flight 1))]
   \<and> raised (pollAJAX (page 5 [command ''a'' (JFunction 1) False (Some (answered 0)),
         command ''b'' (JString ''RT'') False (Some (in_flight 1))])) = Some HandlerError"
  by (simp add: script_defs example_defs)

subsection \<open>One record\<close>

lemma payloads_append [simp]: "payloads (xs @ ys) = payloads xs @ payloads ys"
  by (induction xs rule: payloads.induct) auto

lemma newAJAXCommand_queue:
  "ajaxList (newAJAXCommand u c rp data w) = ajaxList w @ [issued u c rp w]"
  by (simp add: newAJAXCommand_def new_Date_def new_transport_def open_send_def issued_def
      fresh_transport_def Let_def)

lemma newAJAXCommand_trace:
  "trace (newAJAXCommand u c rp data w) =
     trace w @ (case fresh_transport w of None \<Rightarrow> [] | Some x \<Rightarrow> [Open (xid x) u, Send (xid x) data])
       @ [Push (issued u c rp w)]"
  by (simp add: newAJAXCommand_def new_Date_def new_transport_def open_send_def issued_def
      fresh_transport_def Let_def)

lemma reissue_queue:
  "ajaxList (reissue r w) = ajaxList w @ (if repeat r then [issued (url r) (container r) True w] else [])"
  by (simp add: reissue_def newAJAXCommand_queue)

lemma reissue_trace:
  "trace (reissue r w) = trace w @
     (if repeat r
      then (case fresh_transport w of None \<Rightarrow> [] | Some x \<Rightarrow> [Open (xid x) (url r), Send (xid x) None])
           @ [Push (issued (url r) (container r) True w)]
      else [])"
  by (simp add: reissue_def newAJAXCommand_trace)

lemma fresh_transport_emit [simp]: "fresh_transport (emit e w) = fresh_transport w"
  by (simp add: fresh_transport_def)

lemma issued_emit [simp]: "issued u c rp (emit e w) = issued u c rp w"
  by (simp add: issued_def)

lemma fresh_transport_queue [simp]: "fresh_transport (w\<lparr>ajaxList := q\<rparr>) = fresh_transport w"
  by (simp add: fresh_transport_def)

lemma issued_queue [simp]: "issued u c rp (w\<lparr>ajaxList := q\<rparr>) = issued u c rp w"
  by (simp add: issued_def)

lemma resolve_Some: "ajaxReq r = Some x \<Longrightarrow> resolve r w = Done (reissue r (emit (Abort (xid x)) w))"
  by (simp add: resolve_def abort_release_def)

lemma body_null: "ajaxReq r = None \<Longrightarrow> pollAJAX_body now r w = Thrown TypeError w"
  by (simp add: pollAJAX_body_def)

lemma body_ready:
  "ajaxReq r = Some x \<Longrightarrow> readyState x = 4 \<Longrightarrow> status x = 200 \<Longrightarrow>
   pollAJAX_body now r w =
     (case dispatch_ready r x w of
        Done w' \<Rightarrow> Done (reissue r (emit (Abort (xid x)) w'))
      | Thrown e w' \<Rightarrow> Thrown e w')"
  by (simp add: pollAJAX_body_def resolve_Some split: outcome.splits)

lemma body_timeout:
  "ajaxReq r = Some x \<Longrightarrow> \<not> (readyState x = 4 \<and> status x = 200) \<Longrightarrow> timeOutMS < now - lastCalled r \<Longrightarrow>
   pollAJAX_body now r w =
     (case dispatch_timeout r w of
        Done w' \<Rightarrow> Done (reissue r (emit (Abort (xid x)) w'))
      | Thrown e w' \<Rightarrow> Thrown e w')"
  by (auto simp: pollAJAX_body_def resolve_Some Let_def split: outcome.splits)

lemma body_pending:
  "ajaxReq r = Some x \<Longrightarrow> \<not> (readyState x = 4 \<and> status x = 200) \<Longrightarrow> \<not> timeOutMS < now - lastCalled r \<Longrightarrow>
   pollAJAX_body now r w = Done (emit (Push r) (w\<lparr>ajaxList := ajaxList w @ [r]\<rparr>))"
  by (auto simp: pollAJAX_body_def Let_def)

lemma iter_head:
  "ajaxList w = r # rest \<Longrightarrow>
   pollAJAX_iter now w = pollAJAX_body now r (emit (Shift (Some r)) (w\<lparr>ajaxList := rest\<rparr>))"
  by (simp add: pollAJAX_iter_def)

lemma iter_ready_function:
  assumes "ajaxList w = r # rest" "ajaxReq r = Some x" "readyState x = 4" "status x = 200"
    "container r = JFunction h" "responseXML x = Some d"
  shows "pollAJAX_iter now w =
     (if throws w h (Some d)
      then Thrown HandlerError (emit (Call h (Some d)) (emit (Shift (Some r)) (w\<lparr>ajaxList := rest\<rparr>)))
      else Done (reissue r (emit (Abort (xid x)) (emit (Call h (Some d))
             (emit (Shift (Some r)) (w\<lparr>ajaxList := rest\<rparr>))))))"
  using assms by (simp add: iter_head body_ready dispatch_ready_def call_container_def)

lemma iter_ready_unparsed:
  assumes "ajaxList w = r # rest" "ajaxReq r = Some x" "readyState x = 4" "status x = 200"
    "container r = JFunction h" "responseXML x = None"
  shows "pollAJAX_iter now w = Thrown TypeError (emit (Shift (Some r)) (w\<lparr>ajaxList := rest\<rparr>))"
  using assms by (simp add: iter_head body_ready dispatch_ready_def)

lemma iter_ready_string:
  assumes "ajaxList w = r # rest" "ajaxReq r = Some x" "readyState x = 4" "status x = 200"
    "container r = JString s"
  shows "pollAJAX_iter now w =
     (if hasElement w s
      then Done (reissue r (emit (Abort (xid x)) (emit (SetInnerHTML s (responseText x))
             (emit (Shift (Some r)) (w\<lparr>ajaxList := rest\<rparr>)))))
      else Thrown TypeError (emit (Shift (Some r)) (w\<lparr>ajaxList := rest\<rparr>)))"
  using assms by (simp add: iter_head body_ready dispatch_ready_def)

lemma iter_ready_other:
  assumes "ajaxList w = r # rest" "ajaxReq r = Some x" "readyState x = 4" "status x = 200"
    "container r = JOther"
  shows "pollAJAX_iter now w =
     Done (reissue r (emit (Abort (xid x)) (emit (Shift (Some r)) (w\<lparr>ajaxList := rest\<rparr>))))"
  using assms by (simp add: iter_head body_ready dispatch_ready_def)

lemma iter_timeout_function:
  assumes "ajaxList w = r # rest" "ajaxReq r = Some x" "\<not> (readyState x = 4 \<and> status x = 200)"
    "timeOutMS < now - lastCalled r" "container r = JFunction h"
  shows "pollAJAX_iter now w =
     (if throws w h None
      then Thrown HandlerError (emit (Call h None) (emit (Shift (Some r)) (w\<lparr>ajaxList := rest\<rparr>)))
      else Done (reissue r (emit (Abort (xid x)) (emit (Call h None)
             (emit (Shift (Some r)) (w\<lparr>ajaxList := rest\<rparr>))))))"
  using assms by (simp add: iter_head body_timeout dispatch_timeout_def call_container_def)

lemma iter_timeout_alert:
  assumes "ajaxList w = r # rest" "ajaxReq r = Some x" "\<not> (readyState x = 4 \<and> status x = 200)"
    "timeOutMS < now - lastCalled r" "container r = JString s \<or> container r = JOther"
  shows "pollAJAX_iter now w =
     Done (reissue r (emit (Abort (xid x)) (emit (Alert failure_message)
             (emit (Shift (Some r)) (w\<lparr>ajaxList := rest\<rparr>)))))"
  using assms by (auto simp: iter_head body_timeout dispatch_timeout_def)

lemma iter_pending:
  assumes "ajaxList w = r # rest" "ajaxReq r = Some x" "\<not> (readyState x = 4 \<and> status x = 200)"
    "\<not> timeOutMS < now - lastCalled r"
  shows "pollAJAX_iter now w =
     Done (emit (Push r) (emit (Shift (Some r)) (w\<lparr>ajaxList := rest @ [r]\<rparr>)))"
  using assms by (simp add: iter_head body_pending emit_def)

lemma iter_null:
  assumes "ajaxList w = r # rest" "ajaxReq r = None"
  shows "pollAJAX_iter now w = Thrown TypeError (emit (Shift (Some r)) (w\<lparr>ajaxList := rest\<rparr>))"
  using assms by (simp add: iter_head body_null)

lemma reissue_events_simps [simp]:
  "dispatches (reissue_events r w) = []"
  "shifted (reissue_events r w) = []"
  "pushed (reissue_events r w) = (if repeat r then [issued (url r) (container r) True w] else [])"
  "payloads (reissue_events r w) = (if repeat r \<and> fresh_transport w \<noteq> None then [None] else [])"
  "Abort i \<notin> set (reissue_events r w)"
  by (auto simp: reissue_events_def dispatches_def split: option.splits)

lemma resolved_added:
  "added w (reissue r (emit e3 (emit e2 (emit e1 (w\<lparr>ajaxList := q\<rparr>)))))
     = [e1, e2, e3] @ reissue_events r w"
  "added w (reissue r (emit e2 (emit e1 (w\<lparr>ajaxList := q\<rparr>)))) = [e1, e2] @ reissue_events r w"
  "added w (emit e2 (emit e1 (w\<lparr>ajaxList := q\<rparr>))) = [e1, e2]"
  "added w (emit e1 (w\<lparr>ajaxList := q\<rparr>)) = [e1]"
  by (simp_all add: added_def reissue_trace reissue_events_def)

lemma resolved_queue:
  "ajaxList (reissue r (emit e3 (emit e2 (emit e1 (w\<lparr>ajaxList := q\<rparr>)))))
     = q @ (if repeat r then [issued (url r) (container r) True w] else [])"
  "ajaxList (reissue r (emit e2 (emit e1 (w\<lparr>ajaxList := q\<rparr>))))
     = q @ (if repeat r then [issued (url r) (container r) True w] else [])"
  by (simp_all add: reissue_queue)

lemma dispatches_simps [simp]:
  "dispatches [] = []"
  "dispatches (e # es) = (if is_dispatch e then e # dispatches es else dispatches es)"
  by (simp_all add: dispatches_def)

lemma issued_differs:
  "ajaxReq r = Some x \<Longrightarrow> xid x < next_xid w \<Longrightarrow> r \<noteq> issued u c rp w"
  by (auto simp: issued_def fresh_transport_def)

lemma iter_resolved_shape:
  assumes q: "ajaxList w = r # rest" and x: "ajaxReq r = Some x"
    and resolved: "(readyState x = 4 \<and> status x = 200) \<or> 30000 < now - lastCalled r"
  shows "\<exists>es. dispatches es = es \<and> length es \<le> 1
     \<and> added w (world_of (pollAJAX_iter now w)) =
          Shift (Some r) # es @
            (if raised (pollAJAX_iter now w) = None then Abort (xid x) # reissue_events r w else [])
     \<and> length es =
          (if readyState x = 4 \<and> status x = 200
              \<and> (container r = JOther \<or> raised (pollAJAX_iter now w) = Some TypeError)
           then 0 else 1)"
proof (cases "readyState x = 4 \<and> status x = 200")
  case True
  then have ready: "readyState x = 4" "status x = 200" by simp_all
  show ?thesis
  proof (cases "container r")
    case (JFunction h)
    show ?thesis
    proof (cases "responseXML x")
      case None
      from iter_ready_unparsed [OF q x ready JFunction None, of now] True show ?thesis
        by (intro exI [of _ "[]"]) (simp add: resolved_added)
    next
      case (Some dd)
      from iter_ready_function [OF q x ready JFunction Some, of now] True JFunction show ?thesis
        by (intro exI [of _ "[Call h (Some dd)]"]) (simp add: resolved_added)
    qed
  next
    case (JString s)
    show ?thesis
    proof (cases "hasElement w s")
      case True
      with iter_ready_string [OF q x ready JString, of now] JString show ?thesis
        by (intro exI [of _ "[SetInnerHTML s (responseText x)]"]) (simp add: resolved_added)
    next
      case False
      with iter_ready_string [OF q x ready JString, of now] JString ready show ?thesis
        by (intro exI [of _ "[]"]) (simp add: resolved_added)
    qed
  next
    case JOther
    from iter_ready_other [OF q x ready JOther, of now] True JOther show ?thesis
      by (intro exI [of _ "[]"]) (simp add: resolved_added)
  qed
next
  case False
  with resolved have t: "timeOutMS < now - lastCalled r"
    by (simp add: timeOutMS_def)
  show ?thesis
  proof (cases "container r")
    case (JFunction h)
    from iter_timeout_function [OF q x False t JFunction] False show ?thesis
      by (intro exI [of _ "[Call h None]"]) (auto simp: resolved_added)
  next
    case (JString s)
    then have "container r = JString s \<or> container r = JOther" by simp
    from iter_timeout_alert [OF q x False t this] False show ?thesis
      by (intro exI [of _ "[Alert failure_message]"]) (auto simp: resolved_added)
  next
    case JOther
    then have "container r = JString [] \<or> container r = JOther" by simp
    from iter_timeout_alert [OF q x False t this] False show ?thesis
      by (intro exI [of _ "[Alert failure_message]"]) (auto simp: resolved_added)
  qed
qed

lemma dispatches_only:
  "dispatches es = es \<Longrightarrow> pushed es = [] \<and> payloads es = [] \<and> shifted es = []"
proof (induction es)
  case Nil
  then show ?case by simp
next
  case (Cons e es)
  have "length (dispatches es) \<le> length es"
    by (simp add: dispatches_def)
  with Cons.prems have d: "is_dispatch e" "dispatches es = es"
    by (auto split: if_splits)
  from d(1) Cons.IH [OF d(2)] show ?case
    by (cases e) simp_all
qed

subsection \<open>The records of a tick\<close>

lemma older_issued: "N \<le> next_xid w \<Longrightarrow> \<not> older N (issued u c rp w)"
  by (simp add: older_def issued_def fresh_transport_def)

lemma reissue_page:
  "hasElement (reissue r w) = hasElement w" "N \<le> next_xid w \<Longrightarrow> N \<le> next_xid (reissue r w)"
  by (simp_all add: reissue_def newAJAXCommand_def new_Date_def new_transport_def open_send_def Let_def)

lemma body_dispatches:
  "dispatches (added w (world_of (pollAJAX_body now r w))) = sink_events now (hasElement w) r"
  by (auto simp: pollAJAX_body_def dispatch_ready_def dispatch_timeout_def call_container_def
      resolve_Some reissue_trace added_def sink_events_def timeOutMS_def Let_def
      split: option.splits jsval.splits)

lemma body_pushed:
  "N \<le> next_xid w \<Longrightarrow>
   filter (older N) (pushed (added w (world_of (pollAJAX_body now r w))))
     = (if pending now r \<and> older N r then [r] else [])"
  by (auto simp: pollAJAX_body_def dispatch_ready_def dispatch_timeout_def call_container_def
      resolve_Some reissue_trace added_def pending_def older_issued timeOutMS_def Let_def
      split: option.splits jsval.splits)

lemma body_page:
  "hasElement (world_of (pollAJAX_body now r w)) = hasElement w"
  "N \<le> next_xid w \<Longrightarrow> N \<le> next_xid (world_of (pollAJAX_body now r w))"
  by (auto simp: pollAJAX_body_def dispatch_ready_def dispatch_timeout_def call_container_def
      resolve_Some reissue_page Let_def
      split: option.splits jsval.splits)

lemma iter_round:
  assumes q: "ajaxList w = r # rest" and N: "N \<le> next_xid w"
  shows "\<exists>es. trace (world_of (pollAJAX_iter now w)) = trace w @ Shift (Some r) # es
      \<and> shifted es = []
      \<and> ajaxList (world_of (pollAJAX_iter now w)) = rest @ pushed es
      \<and> dispatches es = sink_events now (hasElement w) r
      \<and> filter (older N) (pushed es) = (if pending now r \<and> older N r then [r] else [])
      \<and> hasElement (world_of (pollAJAX_iter now w)) = hasElement w
      \<and> N \<le> next_xid (world_of (pollAJAX_iter now w))"
proof -
  define w1 where "w1 = emit (Shift (Some r)) (w\<lparr>ajaxList := rest\<rparr>)"
  define w' where "w' = world_of (pollAJAX_body now r w1)"
  have i: "world_of (pollAJAX_iter now w) = w'"
    unfolding w'_def w1_def iter_head [OF q] ..
  have p: "trace w1 = trace w @ [Shift (Some r)]" "ajaxList w1 = rest" "hasElement w1 = hasElement w"
    "next_xid w1 = next_xid w"
    by (simp_all add: w1_def)
  have "grows w1 w'"
    unfolding w'_def by (rule grows_body)
  then obtain es where es: "trace w' = trace w1 @ es" "shifted es = []" "ajaxList w' = ajaxList w1 @ pushed es"
    unfolding grows_def by (elim exE conjE)
  from es(1) have a: "added w1 w' = es"
    by (rule added_append)
  have 1: "trace w' = trace w @ Shift (Some r) # es"
    using es(1) p(1) by simp
  have 3: "ajaxList w' = rest @ pushed es"
    using es(3) p(2) by simp
  have 4: "dispatches es = sink_events now (hasElement w) r"
    using body_dispatches [of w1 now r] unfolding w'_def [symmetric] a p(3) .
  from N have N1: "N \<le> next_xid w1"
    by (simp add: p(4))
  have 5: "filter (older N) (pushed es) = (if pending now r \<and> older N r then [r] else [])"
    using body_pushed [OF N1, of now r] unfolding w'_def [symmetric] a .
  have 6: "hasElement w' = hasElement w"
    using body_page(1) [of now r w1] unfolding w'_def [symmetric] p(3) .
  have 7: "N \<le> next_xid w'"
    using body_page(2) [OF N1, of now r] unfolding w'_def [symmetric] .
  show ?thesis
    unfolding i
  proof (intro exI conjI)
    show "trace w' = trace w @ Shift (Some r) # es" by (rule 1)
    show "shifted es = []" by (rule es(2))
    show "ajaxList w' = rest @ pushed es" by (rule 3)
    show "dispatches es = sink_events now (hasElement w) r" by (rule 4)
    show "filter (older N) (pushed es) = (if pending now r \<and> older N r then [r] else [])" by (rule 5)
    show "hasElement w' = hasElement w" by (rule 6)
    show "N \<le> next_xid w'" by (rule 7)
  qed
qed

lemma loop_rounds:
  "ajaxList w = qs @ p \<Longrightarrow> N \<le> next_xid w \<Longrightarrow> hasElement w = present \<Longrightarrow>
   \<exists>es m. trace (world_of (pollAJAX_loop now (length qs) w)) = trace w @ es
     \<and> m \<le> length qs
     \<and> shifted es = map Some (take m qs)
     \<and> dispatches es = concat (map (sink_events now present) (take m qs))
     \<and> filter (older N) (pushed es) = filter (\<lambda>r. pending now r \<and> older N r) (take m qs)
     \<and> ajaxList (world_of (pollAJAX_loop now (length qs) w)) = drop m qs @ p @ pushed es
     \<and> (raised (pollAJAX_loop now (length qs) w) = None \<longrightarrow> m = length qs)"
proof (induction qs arbitrary: w p)
  case Nil
  then show ?case by simp
next
  case (Cons q qs)
  from Cons.prems have q: "ajaxList w = q # (qs @ p)" by simp
  note N = Cons.prems(2)
  note h = Cons.prems(3)
  from iter_round [OF q N, of now] obtain es1 where
    es1: "trace (world_of (pollAJAX_iter now w)) = trace w @ Shift (Some q) # es1"
      "shifted es1 = []"
      "ajaxList (world_of (pollAJAX_iter now w)) = (qs @ p) @ pushed es1"
      "dispatches es1 = sink_events now (hasElement w) q"
      "filter (older N) (pushed es1) = (if pending now q \<and> older N q then [q] else [])"
      "hasElement (world_of (pollAJAX_iter now w)) = hasElement w"
      "N \<le> next_xid (world_of (pollAJAX_iter now w))"
    by (elim exE conjE)
  show ?case
  proof (cases "pollAJAX_iter now w")
    case (Done w1)
    define out where "out = pollAJAX_loop now (length qs) w1"
    from Done have out: "pollAJAX_loop now (length (q # qs)) w = out"
      by (simp add: out_def)
    from Done es1 have w1: "trace w1 = trace w @ Shift (Some q) # es1" "ajaxList w1 = qs @ (p @ pushed es1)"
      "N \<le> next_xid w1" "hasElement w1 = present"
      using h by simp_all
    have "\<exists>es2 m. trace (world_of out) = trace w1 @ es2
        \<and> m \<le> length qs \<and> shifted es2 = map Some (take m qs)
        \<and> dispatches es2 = concat (map (sink_events now present) (take m qs))
        \<and> filter (older N) (pushed es2) = filter (\<lambda>r. pending now r \<and> older N r) (take m qs)
        \<and> ajaxList (world_of out) = drop m qs @ (p @ pushed es1) @ pushed es2
        \<and> (raised out = None \<longrightarrow> m = length qs)"
      unfolding out_def by (rule Cons.IH [OF w1(2) w1(3) w1(4)])
    then obtain es2 m where ih:
      "trace (world_of out) = trace w1 @ es2"
      "m \<le> length qs" "shifted es2 = map Some (take m qs)"
      "dispatches es2 = concat (map (sink_events now present) (take m qs))"
      "filter (older N) (pushed es2) = filter (\<lambda>r. pending now r \<and> older N r) (take m qs)"
      "ajaxList (world_of out) = drop m qs @ (p @ pushed es1) @ pushed es2"
      "raised out = None \<longrightarrow> m = length qs"
      by (elim exE conjE)
    let ?es = "Shift (Some q) # es1 @ es2"
    have 1: "trace (world_of out) = trace w @ ?es"
      using ih(1) w1(1) by simp
    have 2: "Suc m \<le> length (q # qs)"
      using ih(2) by simp
    have 3: "shifted ?es = map Some (take (Suc m) (q # qs))"
      using ih(3) es1(2) by simp
    have 4: "dispatches ?es = concat (map (sink_events now present) (take (Suc m) (q # qs)))"
      using ih(4) es1(4) h by simp
    have 5: "filter (older N) (pushed ?es) = filter (\<lambda>r. pending now r \<and> older N r) (take (Suc m) (q # qs))"
      using ih(5) es1(5) by simp
    have 6: "ajaxList (world_of out) = drop (Suc m) (q # qs) @ p @ pushed ?es"
      using ih(6) by simp
    have 7: "raised out = None \<longrightarrow> Suc m = length (q # qs)"
      using ih(7) by simp
    show ?thesis
      unfolding out
    proof (intro exI conjI)
      show "trace (world_of out) = trace w @ ?es" by (rule 1)
      show "Suc m \<le> length (q # qs)" by (rule 2)
      show "shifted ?es = map Some (take (Suc m) (q # qs))" by (rule 3)
      show "dispatches ?es = concat (map (sink_events now present) (take (Suc m) (q # qs)))" by (rule 4)
      show "filter (older N) (pushed ?es) = filter (\<lambda>r. pending now r \<and> older N r) (take (Suc m) (q # qs))" by (rule 5)
      show "ajaxList (world_of out) = drop (Suc m) (q # qs) @ p @ pushed ?es" by (rule 6)
      show "raised out = None \<longrightarrow> Suc m = length (q # qs)" by (rule 7)
    qed
  next
    case (Thrown e w1)
    then have out: "pollAJAX_loop now (length (q # qs)) w = Thrown e w1"
      by simp
    let ?es = "Shift (Some q) # es1"
    from Thrown es1 have 1: "trace w1 = trace w @ ?es" and 6: "ajaxList w1 = drop (Suc 0) (q # qs) @ p @ pushed ?es"
      by simp_all
    have 2: "Suc 0 \<le> length (q # qs)" by simp
    have 3: "shifted ?es = map Some (take (Suc 0) (q # qs))"
      using es1(2) by simp
    have 4: "dispatches ?es = concat (map (sink_events now present) (take (Suc 0) (q # qs)))"
      using es1(4) h by simp
    have 5: "filter (older N) (pushed ?es) = filter (\<lambda>r. pending now r \<and> older N r) (take (Suc 0) (q # qs))"
      using es1(5) by simp
    show ?thesis
      unfolding out
      apply (rule exI [of _ ?es])
      apply (rule exI [of _ "Suc 0"])
      using 1 2 3 4 5 6 apply simp
      done
  qed
qed

lemma pollAJAX_rounds:
  assumes w': "w' = world_of (pollAJAX w)" and n: "n = length (shifted (added w w'))"
    and now: "now = clock w (reads w)"
  shows "n \<le> length (ajaxList w)"
    and "dispatches (added w w') = concat (map (sink_events now (hasElement w)) (take n (ajaxList w)))"
    and "filter (older (next_xid w)) (pushed (added w w'))
           = filter (\<lambda>r. pending now r \<and> older (next_xid w) r) (take n (ajaxList w))"
    and "ajaxList w' = drop n (ajaxList w) @ pushed (added w w')"
    and "raised (pollAJAX w) = None \<Longrightarrow> n = length (ajaxList w)"
proof -
  let ?w1 = "w\<lparr>reads := Suc (reads w)\<rparr>"
  define out where "out = pollAJAX_loop now (length (ajaxList w)) ?w1"
  define tm where "tm = (if raised out = None then [SetTimeout ''pollAJAX()'' 10] else [])"
  have "ajaxList ?w1 = ajaxList w @ []" "next_xid w \<le> next_xid ?w1" "hasElement ?w1 = hasElement w"
    by simp_all
  from loop_rounds [OF this, of now]
  obtain es m where l:
    "trace (world_of out) = trace ?w1 @ es"
    "m \<le> length (ajaxList w)"
    "shifted es = map Some (take m (ajaxList w))"
    "dispatches es = concat (map (sink_events now (hasElement w)) (take m (ajaxList w)))"
    "filter (older (next_xid w)) (pushed es)
       = filter (\<lambda>r. pending now r \<and> older (next_xid w) r) (take m (ajaxList w))"
    "ajaxList (world_of out) = drop m (ajaxList w) @ [] @ pushed es"
    "raised out = None \<longrightarrow> m = length (ajaxList w)"
    unfolding out_def by (elim exE conjE)
  have p: "pollAJAX w = (case out of Done w2 \<Rightarrow> Done (emit (SetTimeout ''pollAJAX()'' 10) w2)
      | Thrown e w2 \<Rightarrow> Thrown e w2)"
    unfolding out_def now by (rule pollAJAX_unfold)
  have r: "raised (pollAJAX w) = raised out"
    unfolding p by (cases out) simp_all
  have t: "trace w' = trace (world_of out) @ tm"
    unfolding w' p tm_def by (cases out) simp_all
  have q: "ajaxList w' = ajaxList (world_of out)"
    unfolding w' p by (cases out) simp_all
  have "trace w' = trace w @ es @ tm"
    unfolding t using l(1) by simp
  then have a: "added w w' = es @ tm"
    by (rule added_append)
  have tm: "shifted tm = []" "pushed tm = []" "dispatches tm = []"
    by (simp_all add: tm_def)
  have nm: "n = m"
    unfolding n a using l(2) l(3) tm(1) by simp
  show "n \<le> length (ajaxList w)"
    unfolding nm by (rule l(2))
  show "dispatches (added w w') = concat (map (sink_events now (hasElement w)) (take n (ajaxList w)))"
    unfolding nm a using l(4) tm(3) by simp
  show "filter (older (next_xid w)) (pushed (added w w'))
           = filter (\<lambda>r. pending now r \<and> older (next_xid w) r) (take n (ajaxList w))"
    unfolding nm a using l(5) tm(2) by simp
  show "ajaxList w' = drop n (ajaxList w) @ pushed (added w w')"
    unfolding nm a q using l(6) tm(2) by simp
  show "n = length (ajaxList w)" if "raised (pollAJAX w) = None"
    unfolding nm using l(7) that r by simp
qed

lemma take_split:
  "k < n \<Longrightarrow> n \<le> length q \<Longrightarrow> take n q = take k q @ q ! k # drop (Suc k) (take n q)"
proof -
  assume k: "k < n" and n: "n \<le> length q"
  then have "k < length (take n q)" by simp
  from id_take_nth_drop [OF this] k show ?thesis
    by (simp add: min_def)
qed




text \<open>
  C3, as the script has it. Take a tick, and a record of the queue as it was when the
  tick started, at a position \<open>k\<close> the tick reaches, with a transport that is not at
  \<open>readyState\<close> 4 with \<open>status\<close> 200; \<open>now\<close> is the time the tick read when it
  started. While \<open>now - lastCalled\<close> is at most 30000 the tick dispatches nothing
  for the record and puts it back in the queue. Once it is more than 30000 the
  timeout branch takes the record: between the dispatches for the records before
  \<open>k\<close> and those for the records after \<open>k\<close> there is one call of the function
  container with \<open>null\<close>, or, for any other container, one alert and no write; the
  record is not pushed back, and it is not in the queue after the tick unless it
  occurs again among the records the tick did not reach.
\<close>

theorem pollAJAX_timeout_dispatch:
  assumes w': "w' = world_of (pollAJAX w)" and n: "n = length (shifted (added w w'))"
    and k: "k < n" and r: "ajaxList w ! k = r"
    and x: "ajaxReq r = Some x" and unready: "\<not> (readyState x = 4 \<and> status x = 200)"
    and now: "now = clock w (reads w)"
    and before: "before = concat (map (sink_events now (hasElement w)) (take k (ajaxList w)))"
    and after: "after = concat (map (sink_events now (hasElement w)) (drop (Suc k) (take n (ajaxList w))))"
  shows "(now - lastCalled r \<le> 30000 \<longrightarrow>
            dispatches (added w w') = before @ after
          \<and> (xid x < next_xid w \<longrightarrow> r \<in> set (pushed (added w w')) \<and> r \<in> set (ajaxList w')))
     \<and> (30000 < now - lastCalled r \<longrightarrow>
            (container r = JFunction h \<longrightarrow> dispatches (added w w') = before @ [Call h None] @ after)
          \<and> (container r = JString s \<or> container r = JOther \<longrightarrow>
                dispatches (added w w') = before @ [Alert failure_message] @ after)
          \<and> (xid x < next_xid w \<longrightarrow> r \<notin> set (pushed (added w w')))
          \<and> (xid x < next_xid w \<and> r \<notin> set (drop n (ajaxList w)) \<longrightarrow> r \<notin> set (ajaxList w')))
     \<and> n \<le> length (ajaxList w)
     \<and> (raised (pollAJAX w) = None \<longrightarrow> n = length (ajaxList w))"
proof -
  note R = pollAJAX_rounds [OF w' n now]
  have sp: "take n (ajaxList w) = take k (ajaxList w) @ r # drop (Suc k) (take n (ajaxList w))"
    using take_split [OF k R(1)] r by simp
  have "concat (map (sink_events now (hasElement w)) (take k (ajaxList w) @ r # drop (Suc k) (take n (ajaxList w))))
      = before @ sink_events now (hasElement w) r @ after"
    unfolding before after by simp
  then have d: "dispatches (added w w') = before @ sink_events now (hasElement w) r @ after"
    unfolding R(2) by (simp only: sp [symmetric])
  have "r \<in> set (take k (ajaxList w) @ r # drop (Suc k) (take n (ajaxList w)))"
    by simp
  then have mem: "r \<in> set (take n (ajaxList w))"
    by (simp only: sp [symmetric])
  have early: "dispatches (added w w') = before @ after
          \<and> (xid x < next_xid w \<longrightarrow> r \<in> set (pushed (added w w')) \<and> r \<in> set (ajaxList w'))"
    if e: "now - lastCalled r \<le> 30000"
  proof (rule conjI)
    from x unready e have "sink_events now (hasElement w) r = []"
      by (auto simp: sink_events_def)
    then show "dispatches (added w w') = before @ after"
      unfolding d by simp
    show "xid x < next_xid w \<longrightarrow> r \<in> set (pushed (added w w')) \<and> r \<in> set (ajaxList w')"
    proof
      assume "xid x < next_xid w"
      with x have o: "older (next_xid w) r"
        by (simp add: older_def)
      from x unready e have p: "pending now r"
        by (auto simp: pending_def)
      from mem o p have "r \<in> set (filter (older (next_xid w)) (pushed (added w w')))"
        unfolding R(3) by simp
      then have "r \<in> set (pushed (added w w'))"
        by simp
      then show "r \<in> set (pushed (added w w')) \<and> r \<in> set (ajaxList w')"
        unfolding R(4) by simp
    qed
  qed
  have late: "(container r = JFunction h \<longrightarrow> dispatches (added w w') = before @ [Call h None] @ after)
          \<and> (container r = JString s \<or> container r = JOther \<longrightarrow>
                dispatches (added w w') = before @ [Alert failure_message] @ after)
          \<and> (xid x < next_xid w \<longrightarrow> r \<notin> set (pushed (added w w')))
          \<and> (xid x < next_xid w \<and> r \<notin> set (drop n (ajaxList w)) \<longrightarrow> r \<notin> set (ajaxList w'))"
    if l: "30000 < now - lastCalled r"
  proof -
    have 1: "dispatches (added w w') = before @ [Call h None] @ after" if "container r = JFunction h"
      unfolding d using x unready l that by (auto simp: sink_events_def)
    have 2: "dispatches (added w w') = before @ [Alert failure_message] @ after"
      if "container r = JString s \<or> container r = JOther"
      unfolding d using x unready l that by (auto simp: sink_events_def)
    from x l have np: "\<not> pending now r"
      by (simp add: pending_def)
    have 3: "r \<notin> set (pushed (added w w'))" if "xid x < next_xid w"
    proof -
      from that x have o: "older (next_xid w) r"
        by (simp add: older_def)
      have "r \<notin> set (filter (older (next_xid w)) (pushed (added w w')))"
        unfolding R(3) using np by simp
      with o show ?thesis by simp
    qed
    have 4: "r \<notin> set (ajaxList w')" if "xid x < next_xid w \<and> r \<notin> set (drop n (ajaxList w))"
      unfolding R(4) using that 3 by simp
    from 1 2 3 4 show ?thesis
      by (intro conjI impI)
  qed
  have 1: "now - lastCalled r \<le> 30000 \<longrightarrow>
            dispatches (added w w') = before @ after
          \<and> (xid x < next_xid w \<longrightarrow> r \<in> set (pushed (added w w')) \<and> r \<in> set (ajaxList w'))"
    by (rule impI) (rule early)
  have 2: "30000 < now - lastCalled r \<longrightarrow>
            (container r = JFunction h \<longrightarrow> dispatches (added w w') = before @ [Call h None] @ after)
          \<and> (container r = JString s \<or> container r = JOther \<longrightarrow>
                dispatches (added w w') = before @ [Alert failure_message] @ after)
          \<and> (xid x < next_xid w \<longrightarrow> r \<notin> set (pushed (added w w')))
          \<and> (xid x < next_xid w \<and> r \<notin> set (drop n (ajaxList w)) \<longrightarrow> r \<notin> set (ajaxList w'))"
    by (rule impI) (rule late)
  have 3: "raised (pollAJAX w) = None \<longrightarrow> n = length (ajaxList w)"
    by (rule impI) (rule R(5))
  from 1 2 R(1) 3 show ?thesis
    by (intro conjI)
qed

text \<open>
  Two ticks over two records issued at time 0 that are never answered: the tick at
  30000 puts both back, and the next tick, at 30001, calls the function with \<open>null\<close>,
  alerts for the string container, and leaves the queue empty.
\<close>

theorem pollAJAX_timeout_dispatch_witness:
  "dispatches (added
       (page 30000 [command ''a'' (JFunction 0) False (Some (in_flight 0)),
          command ''b'' (JString ''RT'') False (Some (in_flight 1))])
       (world_of (pollAJAX (page 30000 [command ''a'' (JFunction 0) False (Some (in_flight 0)),
          command ''b'' (JString ''RT'') False (Some (in_flight 1))])))) = []
   \<and> ajaxList (world_of (pollAJAX (page 30000 [command ''a'' (JFunction 0) False (Some (in_flight 0)),
          command ''b'' (JString ''RT'') False (Some (in_flight 1))])))
     = [command ''a'' (JFunction 0) False (Some (in_flight 0)),
          command ''b'' (JString ''RT'') False (Some (in_flight 1))]
   \<and> dispatches (added
       (world_of (pollAJAX (page 30000 [command ''a'' (JFunction 0) False (Some (in_flight 0)),
          command ''b'' (JString ''RT'') False (Some (in_flight 1))])))
       (world_of (pollAJAX (world_of (pollAJAX (page 30000 [command ''a'' (JFunction 0) False (Some (in_flight 0)),
          command ''b'' (JString ''RT'') False (Some (in_flight 1))]))))))
     = [Call 0 None, Alert failure_message]
   \<and> ajaxList (world_of (pollAJAX (world_of (pollAJAX (page 30000 [command ''a'' (JFunction 0) False (Some (in_flight 0)),
          command ''b'' (JString ''RT'') False (Some (in_flight 1))]))))) = []
   \<and> trace (world_of (pollAJAX (world_of (pollAJAX (page 30000 [command ''a'' (JFunction 0) False (Some (in_flight 0)),
          command ''b'' (JString ''RT'') False (Some (in_flight 1))])))))
     = [Shift (Some (command ''a'' (JFunction 0) False (Some (in_flight 0)))),
        Push (command ''a'' (JFunction 0) False (Some (in_flight 0))),
        Shift (Some (command ''b'' (JString ''RT'') False (Some (in_flight 1)))),
        Push (command ''b'' (JString ''RT'') False (Some (in_flight 1))),
        SetTimeout ''pollAJAX()'' 10,
        Shift (Some (command ''a'' (JFunction 0) False (Some (in_flight 0)))),
        Call 0 None, Abort 0,
        Shift (Some (command ''b'' (JString ''RT'') False (Some (in_flight 1)))),
        Alert failure_message, Abort 1,
        SetTimeout ''pollAJAX()'' 10]"
proof -
  define w where "w = page 30000 [command ''a'' (JFunction 0) False (Some (in_flight 0)),
          command ''b'' (JString ''RT'') False (Some (in_flight 1))]"
  define w1 where "w1 = world_of (pollAJAX w)"
  let ?b = "command ''b'' (JString ''RT'') False (Some (in_flight 1))"
  have q1: "ajaxList w1 = [command ''a'' (JFunction 0) False (Some (in_flight 0)), ?b]"
    unfolding w1_def w_def by (simp add: script_defs example_defs)
  have q2: "ajaxList (world_of (pollAJAX w1)) = []"
    unfolding w1_def w_def by (simp add: script_defs example_defs)
  have tr: "trace (world_of (pollAJAX w1))
     = [Shift (Some (command ''a'' (JFunction 0) False (Some (in_flight 0)))),
        Push (command ''a'' (JFunction 0) False (Some (in_flight 0))),
        Shift (Some ?b), Push ?b,
        SetTimeout ''pollAJAX()'' 10,
        Shift (Some (command ''a'' (JFunction 0) False (Some (in_flight 0)))),
        Call 0 None, Abort 0,
        Shift (Some ?b),
        Alert failure_message, Abort 1,
        SetTimeout ''pollAJAX()'' 10]"
    unfolding w1_def w_def by (simp add: script_defs example_defs)
  have n: "length (shifted (added w w1)) = 2"
    unfolding w1_def w_def by (simp add: script_defs example_defs)
  have n1: "length (shifted (added w1 (world_of (pollAJAX w1)))) = 2"
    unfolding w1_def w_def by (simp add: script_defs example_defs)
  from n have k: "1 < length (shifted (added w w1))" by simp
  from n1 have k1: "1 < length (shifted (added w1 (world_of (pollAJAX w1))))" by simp
  have r: "ajaxList w ! 1 = ?b"
    unfolding w_def by (simp add: page_def)
  have r1: "ajaxList w1 ! 1 = ?b"
    unfolding q1 by simp
  have x: "ajaxReq ?b = Some (in_flight 1)"
    by (simp add: command_def)
  have un: "\<not> (readyState (in_flight 1) = 4 \<and> status (in_flight 1) = 200)"
    by (simp add: in_flight_def)
  have c: "container ?b = JString ''RT''"
    by (simp add: command_def)
  have e: "clock w (reads w) - lastCalled ?b \<le> 30000"
    unfolding w_def by (simp add: page_def command_def)
  have l: "30000 < clock w1 (reads w1) - lastCalled ?b"
    unfolding w1_def w_def by (simp add: script_defs example_defs)
  have bf: "concat (map (sink_events (clock w (reads w)) (hasElement w)) (take 1 (ajaxList w))) = []"
    unfolding w_def by (simp add: sink_events_def example_defs)
  have af: "concat (map (sink_events (clock w (reads w)) (hasElement w)) (drop 2 (take 2 (ajaxList w)))) = []"
    by simp
  have bf1: "concat (map (sink_events (clock w1 (reads w1)) (hasElement w1)) (take 1 (ajaxList w1)))
      = [Call 0 None]"
    unfolding q1 unfolding w1_def w_def by (simp add: sink_events_def script_defs example_defs)
  have af1: "concat (map (sink_events (clock w1 (reads w1)) (hasElement w1)) (drop 2 (take 2 (ajaxList w1)))) = []"
    by simp
  note T = pollAJAX_timeout_dispatch [where s = "''RT''", OF w1_def refl k r x un refl refl refl]
  note T1 = pollAJAX_timeout_dispatch [where s = "''RT''", OF refl refl k1 r1 x un refl refl refl]
  from T e n bf af have d: "dispatches (added w w1) = []"
    by simp
  from T1 l c n1 bf1 af1 have d1: "dispatches (added w1 (world_of (pollAJAX w1))) = [Call 0 None, Alert failure_message]"
    by simp
  from d q1 d1 q2 tr show ?thesis
    unfolding w1_def w_def by (intro conjI)
qed

text \<open>
  The claim as the specification states it, for every record, fails in two ways.
  Behind a record whose function raises when it is called with \<open>null\<close>, a record
  whose time is up is not reached: nothing is alerted, the record stays in the queue,
  and the tick is left without \<open>setTimeout\<close>. And a record whose transport is
  \<open>null\<close>, 40000 ms after it was issued, is shifted and lost with a TypeError and
  without any dispatch.
\<close>

theorem pollAJAX_timeout_dispatch_counterexample:
  "raised (pollAJAX (page_waiting 30001 (JFunction 2) False)) = Some HandlerError
   \<and> trace (world_of (pollAJAX (page_waiting 30001 (JFunction 2) False)))
     = [Shift (Some (command ''statusD.xml'' (JFunction 2) False (Some (in_flight 0)))), Call 2 None]
   \<and> ajaxList (world_of (pollAJAX (page_waiting 30001 (JFunction 2) False)))
     = [command ''rstatus.xml'' (JString ''RT'') False (Some (in_flight 1))]
   \<and> raised (pollAJAX (newAJAXCommand ''0?1101=I=0'' (JFunction 0) False None page_no_transport))
     = Some TypeError
   \<and> dispatches (trace (world_of (pollAJAX
        (newAJAXCommand ''0?1101=I=0'' (JFunction 0) False None page_no_transport)))) = []
   \<and> ajaxList (world_of (pollAJAX
        (newAJAXCommand ''0?1101=I=0'' (JFunction 0) False None page_no_transport))) = []"
  by (simp add: script_defs example_defs page_no_transport_def)

subsection \<open>One round of the loop\<close>

text \<open>
  C9. A record whose container is neither a function nor a string: when its transport
  is at \<open>readyState\<close> 4 with \<open>status\<close> 200, nothing is called, written or alerted,
  the transport is still aborted and the command is still issued again when \<open>repeat\<close>
  is set; when the transport is not ready and more than 30000 ms have elapsed, the
  failure alert is raised.
\<close>

theorem pollAJAX_other_container:
  assumes q: "ajaxList w = r # rest" and x: "ajaxReq r = Some x"
    and c: "container r = JOther"
    and w': "w' = world_of (pollAJAX_iter now w)"
  shows "(readyState x = 4 \<and> status x = 200 \<longrightarrow>
            raised (pollAJAX_iter now w) = None
          \<and> dispatches (added w w') = []
          \<and> Abort (xid x) \<in> set (added w w')
          \<and> pushed (added w w') = (if repeat r then [issued (url r) JOther True w] else [])
          \<and> ajaxList w' = rest @ pushed (added w w'))
     \<and> (\<not> (readyState x = 4 \<and> status x = 200) \<and> 30000 < now - lastCalled r \<longrightarrow>
            raised (pollAJAX_iter now w) = None
          \<and> dispatches (added w w') = [Alert failure_message])"
proof -
  have a: "raised (pollAJAX_iter now w) = None
          \<and> dispatches (added w w') = []
          \<and> Abort (xid x) \<in> set (added w w')
          \<and> pushed (added w w') = (if repeat r then [issued (url r) JOther True w] else [])
          \<and> ajaxList w' = rest @ pushed (added w w')"
    if "readyState x = 4" "status x = 200"
    using iter_ready_other [OF q x that c, of now] c
    unfolding w' by (simp add: resolved_added resolved_queue)
  have b: "raised (pollAJAX_iter now w) = None \<and> dispatches (added w w') = [Alert failure_message]"
    if u: "\<not> (readyState x = 4 \<and> status x = 200)" and "30000 < now - lastCalled r"
  proof -
    from that have t: "timeOutMS < now - lastCalled r"
      by (simp add: timeOutMS_def)
    from c have "container r = JString [] \<or> container r = JOther" by simp
    from iter_timeout_alert [OF q x u t this] show ?thesis
      unfolding w' by (simp add: resolved_added)
  qed
  show ?thesis
  proof (rule conjI)
    show "readyState x = 4 \<and> status x = 200 \<longrightarrow>
            raised (pollAJAX_iter now w) = None
          \<and> dispatches (added w w') = []
          \<and> Abort (xid x) \<in> set (added w w')
          \<and> pushed (added w w') = (if repeat r then [issued (url r) JOther True w] else [])
          \<and> ajaxList w' = rest @ pushed (added w w')"
      by (rule impI, erule conjE) (rule a)
  next
    show "\<not> (readyState x = 4 \<and> status x = 200) \<and> 30000 < now - lastCalled r \<longrightarrow>
            raised (pollAJAX_iter now w) = None
          \<and> dispatches (added w w') = [Alert failure_message]"
      by (rule impI, erule conjE) (rule b)
  qed
qed

theorem pollAJAX_other_container_witness:
  "dispatches (added (page_answered JOther True)
       (world_of (pollAJAX_iter 5 (page_answered JOther True)))) = []
   \<and> Abort 0 \<in> set (added (page_answered JOther True)
       (world_of (pollAJAX_iter 5 (page_answered JOther True))))
   \<and> pushed (added (page_answered JOther True)
       (world_of (pollAJAX_iter 5 (page_answered JOther True))))
     = [\<lparr>url = ''statusD.xml'', container = JOther, repeat = True,
          ajaxReq = Some (in_flight 10), lastCalled = 5\<rparr>]
   \<and> dispatches (added (page_waiting 30001 JOther False)
       (world_of (pollAJAX_iter 30001 (page_waiting 30001 JOther False))))
     = [Alert failure_message]"
proof -
  have q: "ajaxList (page_answered JOther True)
      = command ''statusD.xml'' JOther True (Some (answered 0))
        # [command ''rstatus.xml'' (JString ''RT'') False (Some (in_flight 1))]"
    by (simp add: page_answered_def page_def)
  have x: "ajaxReq (command ''statusD.xml'' JOther True (Some (answered 0))) = Some (answered 0)"
    by (simp add: command_def)
  have c: "container (command ''statusD.xml'' JOther True (Some (answered 0))) = JOther"
    by (simp add: command_def)
  have q': "ajaxList (page_waiting 30001 JOther False)
      = command ''statusD.xml'' JOther False (Some (in_flight 0))
        # [command ''rstatus.xml'' (JString ''RT'') False (Some (in_flight 1))]"
    by (simp add: page_waiting_def page_def)
  have x': "ajaxReq (command ''statusD.xml'' JOther False (Some (in_flight 0))) = Some (in_flight 0)"
    by (simp add: command_def)
  have c': "container (command ''statusD.xml'' JOther False (Some (in_flight 0))) = JOther"
    by (simp add: command_def)
  note a = pollAJAX_other_container [where now = 5, OF q x c refl]
  note b = pollAJAX_other_container [where now = 30001, OF q' x' c' refl]
  have i: "issued ''statusD.xml'' JOther True (page_answered JOther True)
      = \<lparr>url = ''statusD.xml'', container = JOther, repeat = True,
          ajaxReq = Some (in_flight 10), lastCalled = 5\<rparr>"
    by (simp add: example_defs)
  from a b i show ?thesis
    by (simp add: command_def answered_def in_flight_def)
qed

text \<open>
  C4, as the script has it. When a record at the head of the queue is resolved, by the
  ready branch or by the timeout branch, and nothing is raised, then with \<open>repeat\<close>
  set exactly one record is pushed, at the tail of the queue: it has the same url and
  container, \<open>repeat\<close> set, the time of its creation, and a transport of its own that
  was sent no payload. Without \<open>repeat\<close>, or when the dispatch raises, nothing is
  pushed and nothing is sent.
\<close>

theorem pollAJAX_reissue:
  assumes q: "ajaxList w = r # rest" and x: "ajaxReq r = Some x"
    and resolved: "(readyState x = 4 \<and> status x = 200) \<or> 30000 < now - lastCalled r"
    and w': "w' = world_of (pollAJAX_iter now w)"
  shows "(repeat r \<and> raised (pollAJAX_iter now w) = None \<longrightarrow>
            ajaxList w' = rest @ [issued (url r) (container r) True w]
          \<and> pushed (added w w') = [issued (url r) (container r) True w]
          \<and> payloads (added w w') = (if fresh_transport w = None then [] else [None]))
     \<and> (\<not> (repeat r \<and> raised (pollAJAX_iter now w) = None) \<longrightarrow>
            ajaxList w' = rest \<and> pushed (added w w') = [] \<and> payloads (added w w') = [])
     \<and> url (issued (url r) (container r) True w) = url r
     \<and> container (issued (url r) (container r) True w) = container r
     \<and> repeat (issued (url r) (container r) True w) = True
     \<and> lastCalled (issued (url r) (container r) True w) = clock w (reads w)"
proof -
  define tl where "tl = (if raised (pollAJAX_iter now w) = None then Abort (xid x) # reissue_events r w else [])"
  from iter_resolved_shape [OF q x resolved] obtain es where es:
    "dispatches es = es" "added w w' = Shift (Some r) # es @ tl"
    unfolding w' tl_def by (elim exE conjE)
  from dispatches_only [OF es(1)] have d: "pushed es = []" "payloads es = []"
    by simp_all
  from iter_cons [OF q, of now] obtain es' where es':
    "trace w' = trace w @ Shift (Some r) # es'" "ajaxList w' = rest @ pushed es'"
    unfolding w' by (elim exE conjE)
  from es'(1) have "added w w' = Shift (Some r) # es'"
    by (rule added_append)
  with es'(2) have qq: "ajaxList w' = rest @ pushed (added w w')"
    by simp
  have p: "pushed (added w w') = pushed tl" "payloads (added w w') = payloads tl"
    unfolding es(2) using d by simp_all
  have y: "repeat r \<and> raised (pollAJAX_iter now w) = None \<Longrightarrow>
      pushed tl = [issued (url r) (container r) True w]
      \<and> payloads tl = (if fresh_transport w = None then [] else [None])"
    by (simp add: tl_def)
  have z: "\<not> (repeat r \<and> raised (pollAJAX_iter now w) = None) \<Longrightarrow> pushed tl = [] \<and> payloads tl = []"
    by (auto simp: tl_def)
  show ?thesis
    unfolding qq p using y z by (simp add: issued_def)
qed

theorem pollAJAX_reissue_witness:
  "raised (pollAJAX_iter 5 (page_answered (JFunction 0) True)) = None
   \<and> ajaxList (world_of (pollAJAX_iter 5 (page_answered (JFunction 0) True)))
     = [command ''rstatus.xml'' (JString ''RT'') False (Some (in_flight 1)),
        \<lparr>url = ''statusD.xml'', container = JFunction 0, repeat = True,
          ajaxReq = Some (in_flight 10), lastCalled = 5\<rparr>]
   \<and> payloads (added (page_answered (JFunction 0) True)
       (world_of (pollAJAX_iter 5 (page_answered (JFunction 0) True)))) = [None]
   \<and> pushed (added (page_answered (JFunction 0) False)
       (world_of (pollAJAX_iter 5 (page_answered (JFunction 0) False)))) = []"
proof -
  have q: "ajaxList (page_answered (JFunction 0) rp)
      = command ''statusD.xml'' (JFunction 0) rp (Some (answered 0))
        # [command ''rstatus.xml'' (JString ''RT'') False (Some (in_flight 1))]" for rp
    by (simp add: page_answered_def page_def)
  have x: "ajaxReq (command ''statusD.xml'' (JFunction 0) rp (Some (answered 0))) = Some (answered 0)" for rp
    by (simp add: command_def)
  have r: "(readyState (answered 0) = 4 \<and> status (answered 0) = 200)
      \<or> 30000 < 5 - lastCalled (command ''statusD.xml'' (JFunction 0) rp (Some (answered 0)))" for rp
    by (simp add: answered_def)
  have n: "raised (pollAJAX_iter 5 (page_answered (JFunction 0) True)) = None"
    by (simp add: script_defs example_defs)
  have i: "issued ''statusD.xml'' (JFunction 0) True (page_answered (JFunction 0) True)
      = \<lparr>url = ''statusD.xml'', container = JFunction 0, repeat = True,
          ajaxReq = Some (in_flight 10), lastCalled = 5\<rparr>"
    by (simp add: example_defs)
  have t: "fresh_transport (page_answered (JFunction 0) True) \<noteq> None"
    by (simp add: example_defs)
  from pollAJAX_reissue [OF q [of True] x [of True] r [of True] refl]
    pollAJAX_reissue [OF q [of False] x [of False] r [of False] refl] n i t
  show ?thesis
    by (simp add: command_def)
qed

text \<open>
  The claim as the specification states it, for every dispatched record, fails when
  the function container raises: the function has been called, and no record is
  issued although \<open>repeat\<close> is set.
\<close>

theorem pollAJAX_reissue_counterexample:
  "repeat (command ''statusD.xml'' (JFunction 1) True (Some (answered 0)))
   \<and> dispatches (added (page_answered (JFunction 1) True)
       (world_of (pollAJAX (page_answered (JFunction 1) True))))
     = [Call 1 (Some status_doc)]
   \<and> pushed (added (page_answered (JFunction 1) True)
       (world_of (pollAJAX (page_answered (JFunction 1) True)))) = []
   \<and> ajaxList (world_of (pollAJAX (page_answered (JFunction 1) True)))
     = [command ''rstatus.xml'' (JString ''RT'') False (Some (in_flight 1))]"
  by (simp add: script_defs example_defs)

text \<open>
  C5, as the script has it. For a resolved record nothing is called, written or
  alerted more than once, and it happens before the transport is aborted, not after:
  when the round returns, its events are the shift, then the dispatch, then the abort
  of the record's transport, then the events of the repeat, which hold no dispatch and
  no abort. When the dispatch raises, the transport is not aborted at all. There is
  exactly one dispatch, except that there is none on the ready branch when the
  container is neither a function nor a string, or when a TypeError is raised there.
\<close>

theorem pollAJAX_dispatch_then_abort:
  assumes q: "ajaxList w = r # rest" and x: "ajaxReq r = Some x"
    and resolved: "(readyState x = 4 \<and> status x = 200) \<or> 30000 < now - lastCalled r"
    and w': "w' = world_of (pollAJAX_iter now w)"
  shows "length (dispatches (added w w')) \<le> 1
     \<and> length (dispatches (added w w')) =
          (if readyState x = 4 \<and> status x = 200
              \<and> (container r = JOther \<or> raised (pollAJAX_iter now w) = Some TypeError)
           then 0 else 1)
     \<and> (raised (pollAJAX_iter now w) = None \<longrightarrow>
           added w w' = Shift (Some r) # dispatches (added w w') @ Abort (xid x) # reissue_events r w)
     \<and> (raised (pollAJAX_iter now w) \<noteq> None \<longrightarrow>
           added w w' = Shift (Some r) # dispatches (added w w'))
     \<and> dispatches (reissue_events r w) = []
     \<and> Abort (xid x) \<notin> set (reissue_events r w)"
proof -
  from iter_resolved_shape [OF q x resolved] obtain es where es:
    "dispatches es = es" "length es \<le> 1"
    "added w w' = Shift (Some r) # es @
            (if raised (pollAJAX_iter now w) = None then Abort (xid x) # reissue_events r w else [])"
    "length es =
          (if readyState x = 4 \<and> status x = 200
              \<and> (container r = JOther \<or> raised (pollAJAX_iter now w) = Some TypeError)
           then 0 else 1)"
    unfolding w' by (elim exE conjE)
  have d: "dispatches (added w w') = es"
    unfolding es(3) using es(1) by simp
  show ?thesis
    unfolding d using es(2) es(3) es(4) by simp
qed

theorem pollAJAX_dispatch_then_abort_witness:
  "added (page_answered (JFunction 0) True)
       (world_of (pollAJAX_iter 5 (page_answered (JFunction 0) True)))
     = [Shift (Some (command ''statusD.xml'' (JFunction 0) True (Some (answered 0)))),
        Call 0 (Some status_doc), Abort 0, Open 10 ''statusD.xml'', Send 10 None,
        Push \<lparr>url = ''statusD.xml'', container = JFunction 0, repeat = True,
          ajaxReq = Some (in_flight 10), lastCalled = 5\<rparr>]"
proof -
  have q: "ajaxList (page_answered (JFunction 0) True)
      = command ''statusD.xml'' (JFunction 0) True (Some (answered 0))
        # [command ''rstatus.xml'' (JString ''RT'') False (Some (in_flight 1))]"
    by (simp add: page_answered_def page_def)
  have x: "ajaxReq (command ''statusD.xml'' (JFunction 0) True (Some (answered 0))) = Some (answered 0)"
    by (simp add: command_def)
  have r: "(readyState (answered 0) = 4 \<and> status (answered 0) = 200)
      \<or> 30000 < 5 - lastCalled (command ''statusD.xml'' (JFunction 0) True (Some (answered 0)))"
    by (simp add: answered_def)
  have n: "raised (pollAJAX_iter 5 (page_answered (JFunction 0) True)) = None"
    by (simp add: script_defs example_defs)
  have d: "dispatches (added (page_answered (JFunction 0) True)
       (world_of (pollAJAX_iter 5 (page_answered (JFunction 0) True)))) = [Call 0 (Some status_doc)]"
    by (simp add: script_defs example_defs)
  have e: "reissue_events (command ''statusD.xml'' (JFunction 0) True (Some (answered 0)))
       (page_answered (JFunction 0) True)
     = [Open 10 ''statusD.xml'', Send 10 None,
        Push \<lparr>url = ''statusD.xml'', container = JFunction 0, repeat = True,
          ajaxReq = Some (in_flight 10), lastCalled = 5\<rparr>]"
    by (simp add: reissue_events_def example_defs)
  from pollAJAX_dispatch_then_abort [OF q x r refl] n d e show ?thesis
    by (simp add: answered_def)
qed

text \<open>
  The claim as the specification states it puts the dispatch after the abort, and has
  one dispatch for every resolved record. In a tick over an answered record with a
  function container, the function is called at the second event of the trace and the
  transport is aborted at the third. And an answered record whose container is
  neither a function nor a string is resolved, its transport aborted, with no
  dispatch at all.
\<close>

theorem pollAJAX_dispatch_then_abort_counterexample:
  "take 3 (trace (world_of (pollAJAX (page_answered (JFunction 0) False))))
     = [Shift (Some (command ''statusD.xml'' (JFunction 0) False (Some (answered 0)))),
        Call 0 (Some status_doc), Abort 0]
   \<and> take 2 (trace (world_of (pollAJAX (page_answered JOther False))))
     = [Shift (Some (command ''statusD.xml'' JOther False (Some (answered 0)))), Abort 0]
   \<and> dispatches (trace (world_of (pollAJAX (page_answered JOther False)))) = []"
  by (simp add: script_defs example_defs)

text \<open>
  C6, which the script does not meet. On a page with neither XMLHttpRequest nor ActiveXObject,
  \<open>newAJAXCommand\<close> queues a record whose \<open>ajaxReq\<close> is \<open>null\<close>. A round of
  the loop over that record, early (at time 6) or late, raises a TypeError at line 38,
  where it reads \<open>readyState\<close> of \<open>null\<close>. The next tick, here 40000 ms later,
  shifts the record and raises: nothing is alerted, the record is gone, and the tick
  is left without \<open>setTimeout\<close>.
\<close>

theorem pollAJAX_null_transport:
  "ajaxList (newAJAXCommand ''0?1101=I=0'' JOther False None page_no_transport)
     = [\<lparr>url = ''0?1101=I=0'', container = JOther, repeat = False, ajaxReq = None, lastCalled = 5\<rparr>]
   \<and> raised (pollAJAX_iter 6 (newAJAXCommand ''0?1101=I=0'' JOther False None page_no_transport))
     = Some TypeError
   \<and> raised (pollAJAX (newAJAXCommand ''0?1101=I=0'' JOther False None page_no_transport))
     = Some TypeError
   \<and> trace (world_of (pollAJAX (newAJAXCommand ''0?1101=I=0'' JOther False None page_no_transport)))
     = [Push \<lparr>url = ''0?1101=I=0'', container = JOther, repeat = False, ajaxReq = None, lastCalled = 5\<rparr>,
        Shift (Some \<lparr>url = ''0?1101=I=0'', container = JOther, repeat = False, ajaxReq = None,
          lastCalled = 5\<rparr>)]
   \<and> ajaxList (world_of (pollAJAX (newAJAXCommand ''0?1101=I=0'' JOther False None page_no_transport)))
     = []"
  by (simp add: script_defs example_defs page_no_transport_def)

subsection \<open>A function that raises\<close>

lemma faulty_cong: "throws w1 = throws w \<Longrightarrow> faulty w1 e = faulty w e"
  by (cases e) simp_all

lemma faulty_cong': "throws w1 = throws w \<Longrightarrow> faulty w1 = faulty w"
  by (rule ext) (rule faulty_cong)

lemma careful_step:
  assumes "throws w1 = throws w" "trace w1 = trace w @ es"
    "list_all (\<lambda>e. \<not> is_timer e) es" "list_all (\<lambda>e. \<not> faulty w e) es"
  shows "careful w (Done w1)"
  unfolding careful_def using assms by simp

lemma careful_raise:
  assumes "throws w1 = throws w" "trace w1 = trace w @ es" "e \<noteq> HandlerError"
    "list_all (\<lambda>e. \<not> is_timer e) es" "list_all (\<lambda>e. \<not> faulty w e) es"
  shows "careful w (Thrown e w1)"
  unfolding careful_def using assms by simp

lemma careful_then:
  assumes a: "careful w (Done w1)" and b: "careful w1 out"
  shows "careful w out"
proof -
  from a obtain es1 where 1: "throws w1 = throws w" "trace w1 = trace w @ es1"
    "list_all (\<lambda>e. \<not> is_timer e) es1" "list_all (\<lambda>e. \<not> faulty w e) es1"
    unfolding careful_def by (elim conjE exE) simp
  have f: "faulty w1 = faulty w" using 1(1) by (rule faulty_cong')
  from b obtain es2 where 2: "throws (world_of out) = throws w1"
    "trace (world_of out) = trace w1 @ es2" "list_all (\<lambda>e. \<not> is_timer e) es2"
    "if raised out = Some HandlerError
         then es2 \<noteq> [] \<and> faulty w (last es2) \<and> list_all (\<lambda>e. \<not> faulty w e) (butlast es2)
         else list_all (\<lambda>e. \<not> faulty w e) es2"
    unfolding careful_def f by (elim conjE exE)
  have t: "trace (world_of out) = trace w @ (es1 @ es2)"
    using 1(2) 2(2) by simp
  have n: "list_all (\<lambda>e. \<not> is_timer e) (es1 @ es2)"
    using 1(3) 2(3) by simp
  have c: "if raised out = Some HandlerError
         then es1 @ es2 \<noteq> [] \<and> faulty w (last (es1 @ es2))
            \<and> list_all (\<lambda>e. \<not> faulty w e) (butlast (es1 @ es2))
         else list_all (\<lambda>e. \<not> faulty w e) (es1 @ es2)"
  proof (cases "raised out = Some HandlerError")
    case True
    with 2(4) have e: "es2 \<noteq> []" "faulty w (last es2)" "list_all (\<lambda>e. \<not> faulty w e) (butlast es2)"
      by simp_all
    from e(1) have "last (es1 @ es2) = last es2" "butlast (es1 @ es2) = es1 @ butlast es2"
      by (simp_all add: butlast_append)
    with True e 1(4) show ?thesis by simp
  next
    case False
    with 2(4) 1(4) show ?thesis by simp
  qed
  show ?thesis
    unfolding careful_def
  proof (intro conjI exI)
    show "throws (world_of out) = throws w" using 1(1) 2(1) by simp
    show "trace (world_of out) = trace w @ (es1 @ es2)" by (rule t)
    show "list_all (\<lambda>e. \<not> is_timer e) (es1 @ es2)" by (rule n)
    show "if raised out = Some HandlerError
         then es1 @ es2 \<noteq> [] \<and> faulty w (last (es1 @ es2))
            \<and> list_all (\<lambda>e. \<not> faulty w e) (butlast (es1 @ es2))
         else list_all (\<lambda>e. \<not> faulty w e) (es1 @ es2)" by (rule c)
  qed
qed

lemma careful_bind:
  assumes "careful w out1" and "\<And>w1. out1 = Done w1 \<Longrightarrow> careful w1 (g w1)"
  shows "careful w (case out1 of Done w1 \<Rightarrow> g w1 | Thrown e w1 \<Rightarrow> Thrown e w1)"
proof (cases out1)
  case (Done w1)
  with assms have "careful w (Done w1)" "careful w1 (g w1)" by simp_all
  then have "careful w (g w1)" by (rule careful_then)
  with Done show ?thesis by simp
next
  case (Thrown e w1)
  with assms(1) show ?thesis by simp
qed

lemma throws_newAJAXCommand [simp]: "throws (newAJAXCommand u c rp data w) = throws w"
  by (simp add: newAJAXCommand_def new_Date_def new_transport_def open_send_def Let_def)

lemma throws_reissue [simp]: "throws (reissue r w) = throws w"
  by (simp add: reissue_def)

lemma careful_reissue: "careful w (Done (reissue r w))"
proof (rule careful_step)
  show "throws (reissue r w) = throws w" by simp
  show "trace (reissue r w) = trace w @ reissue_events r w"
    by (simp add: reissue_trace reissue_events_def)
  show "list_all (\<lambda>e. \<not> is_timer e) (reissue_events r w)"
    by (simp add: reissue_events_def split: option.splits)
  show "list_all (\<lambda>e. \<not> faulty w e) (reissue_events r w)"
    by (simp add: reissue_events_def split: option.splits)
qed

lemma careful_emit: "\<not> is_timer e \<Longrightarrow> \<not> faulty w e \<Longrightarrow> careful w (Done (emit e w))"
  by (rule careful_step [where es = "[e]"]) simp_all

lemma careful_refl: "careful w (Done w)"
  by (rule careful_step [where es = "[]"]) simp_all

lemma careful_TypeError: "careful w (Thrown TypeError w)"
  by (rule careful_raise [where es = "[]"]) simp_all

lemma careful_call: "careful w (call_container h a w)"
proof (cases "throws w h a")
  case True
  then show ?thesis
    unfolding careful_def call_container_def by (simp add: exI [of _ "[Call h a]"])
next
  case False
  then have "careful w (Done (emit (Call h a) w))"
    by (intro careful_emit) simp_all
  with False show ?thesis by (simp add: call_container_def)
qed

lemma careful_resolve: "careful w (resolve r w)"
proof (cases "ajaxReq r")
  case None
  then show ?thesis by (simp add: resolve_def abort_release_def careful_TypeError)
next
  case (Some x)
  have "careful w (Done (emit (Abort (xid x)) w))"
    by (intro careful_emit) simp_all
  then have "careful w (Done (reissue r (emit (Abort (xid x)) w)))"
    by (rule careful_then) (rule careful_reissue)
  with Some show ?thesis by (simp add: resolve_Some)
qed

lemma careful_dispatch_ready: "careful w (dispatch_ready r x w)"
  by (auto simp: dispatch_ready_def careful_TypeError careful_call careful_refl
      intro: careful_emit split: jsval.splits option.splits)

lemma careful_dispatch_timeout: "careful w (dispatch_timeout r w)"
  by (auto simp: dispatch_timeout_def careful_call intro: careful_emit split: jsval.splits)

lemma careful_body: "careful w (pollAJAX_body now r w)"
proof (cases "ajaxReq r")
  case None
  then show ?thesis by (simp add: body_null careful_TypeError)
next
  case (Some x)
  have a: "careful w (case dispatch_ready r x w of Done w' \<Rightarrow> resolve r w' | Thrown e w' \<Rightarrow> Thrown e w')"
    by (rule careful_bind) (rule careful_dispatch_ready, rule careful_resolve)
  have b: "careful w (case dispatch_timeout r w of Done w' \<Rightarrow> resolve r w' | Thrown e w' \<Rightarrow> Thrown e w')"
    by (rule careful_bind) (rule careful_dispatch_timeout, rule careful_resolve)
  have c: "careful w (Done (emit (Push r) (w\<lparr>ajaxList := ajaxList w @ [r]\<rparr>)))"
    by (rule careful_step [where es = "[Push r]"]) simp_all
  from Some a b c show ?thesis
    by (simp add: pollAJAX_body_def Let_def)
qed

lemma careful_iter: "careful w (pollAJAX_iter now w)"
proof (cases "ajaxList w")
  case Nil
  have "careful w (Done (emit (Shift None) w))"
    by (intro careful_emit) simp_all
  with Nil show ?thesis by (simp add: pollAJAX_iter_def)
next
  case (Cons r rest)
  have "careful w (Done (emit (Shift (Some r)) (w\<lparr>ajaxList := rest\<rparr>)))"
    by (rule careful_step [where es = "[Shift (Some r)]"]) simp_all
  then have "careful w (pollAJAX_body now r (emit (Shift (Some r)) (w\<lparr>ajaxList := rest\<rparr>)))"
    by (rule careful_then) (rule careful_body)
  with Cons show ?thesis by (simp add: pollAJAX_iter_def)
qed

lemma careful_loop: "careful w (pollAJAX_loop now i w)"
proof (induction i arbitrary: w)
  case 0
  show ?case by (simp add: careful_refl)
next
  case (Suc i)
  have "careful w (case pollAJAX_iter now w of Done w' \<Rightarrow> pollAJAX_loop now i w'
      | Thrown e w' \<Rightarrow> Thrown e w')"
    by (rule careful_bind) (rule careful_iter, rule Suc.IH)
  then show ?case by simp
qed

lemma quiet_call:
  "list_all (\<lambda>e. \<not> faulty w e) es \<Longrightarrow> Call h a \<in> set es \<Longrightarrow> \<not> throws w h a"
  by (induction es) auto

lemma no_timer_mem:
  "list_all (\<lambda>e. \<not> is_timer e) es \<Longrightarrow> SetTimeout c d \<notin> set es"
  by (induction es) auto

lemma mem_butlast: "x \<in> set es \<Longrightarrow> x \<noteq> last es \<Longrightarrow> x \<in> set (butlast es)"
  by (induction es) (auto split: if_splits)

lemma loop_careful_events:
  fixes w :: world
  defines "out \<equiv> pollAJAX_loop (clock w (reads w)) (length (ajaxList w)) (w\<lparr>reads := Suc (reads w)\<rparr>)"
  shows "\<exists>es. trace (world_of out) = trace w @ es \<and> list_all (\<lambda>e. \<not> is_timer e) es \<and>
        (if raised out = Some HandlerError
         then es \<noteq> [] \<and> faulty w (last es) \<and> list_all (\<lambda>e. \<not> faulty w e) (butlast es)
         else list_all (\<lambda>e. \<not> faulty w e) es)"
proof -
  have f: "faulty (w\<lparr>reads := Suc (reads w)\<rparr>) = faulty w"
    by (rule faulty_cong') simp
  have "careful (w\<lparr>reads := Suc (reads w)\<rparr>) out"
    unfolding out_def by (rule careful_loop)
  then show ?thesis
    unfolding careful_def f by simp
qed

text \<open>
  C7, as the script has it. If a function container raises when it is called during
  a tick, the exception leaves \<open>pollAJAX\<close>: the call is the last event of the tick,
  so the transport of that record is not aborted and the record is not issued again,
  no further record is shifted, the records of the snapshot behind it stay in the
  queue, and \<open>setTimeout\<close> is not reached, so no next tick is scheduled.
\<close>

theorem pollAJAX_handler_fault:
  assumes c: "Call h a \<in> set (added w w')" and t: "throws w h a"
    and w': "w' = world_of (pollAJAX w)"
  shows "raised (pollAJAX w) = Some HandlerError
     \<and> last (added w w') = Call h a
     \<and> SetTimeout ''pollAJAX()'' 10 \<notin> set (added w w')
     \<and> length (shifted (added w w')) \<le> length (ajaxList w)
     \<and> ajaxList w' = drop (length (shifted (added w w'))) (ajaxList w) @ pushed (added w w')"
proof -
  define out where "out = pollAJAX_loop (clock w (reads w)) (length (ajaxList w)) (w\<lparr>reads := Suc (reads w)\<rparr>)"
  from loop_careful_events [of w] obtain es where es:
    "trace (world_of out) = trace w @ es" "list_all (\<lambda>e. \<not> is_timer e) es"
    "if raised out = Some HandlerError
         then es \<noteq> [] \<and> faulty w (last es) \<and> list_all (\<lambda>e. \<not> faulty w e) (butlast es)
         else list_all (\<lambda>e. \<not> faulty w e) es"
    unfolding out_def by (elim exE conjE)
  have p: "pollAJAX w = (case out of Done w2 \<Rightarrow> Done (emit (SetTimeout ''pollAJAX()'' 10) w2)
      | Thrown e w2 \<Rightarrow> Thrown e w2)"
    unfolding out_def by (rule pollAJAX_unfold)
  have r: "raised (pollAJAX w) = raised out"
    unfolding p by (cases out) simp_all
  have a: "added w w' = es @ (if raised out = None then [SetTimeout ''pollAJAX()'' 10] else [])"
    unfolding w' p using es(1) by (cases out) (simp_all add: added_def)
  have inn: "Call h a \<in> set es"
    using c unfolding a by (simp split: if_splits)
  have he: "raised out = Some HandlerError"
  proof (rule ccontr)
    assume "raised out \<noteq> Some HandlerError"
    with es(3) have "list_all (\<lambda>e. \<not> faulty w e) es" by simp
    from quiet_call [OF this inn] t show False by simp
  qed
  with es(3) have e: "es \<noteq> []" "list_all (\<lambda>e. \<not> faulty w e) (butlast es)"
    by simp_all
  have l: "last es = Call h a"
  proof (rule ccontr)
    assume n: "last es \<noteq> Call h a"
    from mem_butlast [OF inn] n have "Call h a \<in> set (butlast es)" by simp
    from quiet_call [OF e(2) this] t show False by simp
  qed
  have a': "added w w' = es"
    unfolding a using he by simp
  have nt: "SetTimeout ''pollAJAX()'' 10 \<notin> set es"
    using es(2) by (rule no_timer_mem)
  from pollAJAX_events [of w] obtain es0 m where ev:
    "trace w' = trace w @ es0 @ (if raised (pollAJAX w) = None then [SetTimeout ''pollAJAX()'' 10] else [])"
    "m \<le> length (ajaxList w)"
    "shifted es0 = map Some (take m (ajaxList w))"
    "ajaxList w' = drop m (ajaxList w) @ pushed es0"
    unfolding w' by (elim exE conjE)
  from ev(1) have "added w w' = es0"
    unfolding r he by (simp add: added_def)
  with a' have es0: "es0 = es" by simp
  have m: "length (shifted es) = m"
    using ev(2) ev(3) unfolding es0 by simp
  show ?thesis
    unfolding a' r m using he l nt ev(2) ev(4) unfolding es0 by simp
qed

theorem pollAJAX_handler_fault_witness:
  "throws (page_answered (JFunction 1) True) 1 (Some status_doc)
   \<and> raised (pollAJAX (page_answered (JFunction 1) True)) = Some HandlerError
   \<and> added (page_answered (JFunction 1) True) (world_of (pollAJAX (page_answered (JFunction 1) True)))
       = [Shift (Some (command ''statusD.xml'' (JFunction 1) True (Some (answered 0)))),
          Call 1 (Some status_doc)]
   \<and> ajaxList (world_of (pollAJAX (page_answered (JFunction 1) True)))
       = [command ''rstatus.xml'' (JString ''RT'') False (Some (in_flight 1))]"
proof -
  have a: "added (page_answered (JFunction 1) True) (world_of (pollAJAX (page_answered (JFunction 1) True)))
       = [Shift (Some (command ''statusD.xml'' (JFunction 1) True (Some (answered 0)))),
          Call 1 (Some status_doc)]"
    by (simp add: script_defs example_defs)
  then have c: "Call 1 (Some status_doc)
      \<in> set (added (page_answered (JFunction 1) True) (world_of (pollAJAX (page_answered (JFunction 1) True))))"
    by simp
  have t: "throws (page_answered (JFunction 1) True) 1 (Some status_doc)"
    by (simp add: example_defs)
  have q: "ajaxList (page_answered (JFunction 1) True)
      = [command ''statusD.xml'' (JFunction 1) True (Some (answered 0)),
         command ''rstatus.xml'' (JString ''RT'') False (Some (in_flight 1))]"
    by (simp add: page_answered_def page_def)
  from pollAJAX_handler_fault [OF c t refl] a t q show ?thesis
    by simp
qed

text \<open>
  The claim as the specification states it fails: a function that raises on \<open>null\<close>,
  called by the timeout branch, ends the tick. The second record of the snapshot is
  never shifted and the trace holds no \<open>setTimeout\<close>.
\<close>

theorem pollAJAX_handler_fault_counterexample:
  "raised (pollAJAX (page_waiting 30001 (JFunction 2) False)) = Some HandlerError
   \<and> trace (world_of (pollAJAX (page_waiting 30001 (JFunction 2) False)))
       = [Shift (Some (command ''statusD.xml'' (JFunction 2) False (Some (in_flight 0)))),
          Call 2 None]
   \<and> ajaxList (world_of (pollAJAX (page_waiting 30001 (JFunction 2) False)))
       = [command ''rstatus.xml'' (JString ''RT'') False (Some (in_flight 1))]"
  by (simp add: script_defs example_defs)

subsection \<open>The timestamp of a tick\<close>

lemma timeless_idem [simp]: "timeless (timeless r) = timeless r"
  by (simp add: timeless_def)

lemma timeless_event_idem [simp]: "timeless_event (timeless_event e) = timeless_event e"
  by (cases e) simp_all

lemma blur_idem [simp]: "blur (blur w) = blur w"
  by (simp add: blur_def comp_def)

lemma blur_body: "blur_outcome (pollAJAX_body now r w) = blur_outcome (pollAJAX_body now r (blur w))"
  by (simp add: script_defs blur_def timeless_def comp_def split: option.splits jsval.splits)

lemma blur_body_cong:
  assumes "blur w = blur v"
  shows "blur_outcome (pollAJAX_body now r w) = blur_outcome (pollAJAX_body now r v)"
proof -
  have "blur_outcome (pollAJAX_body now r w) = blur_outcome (pollAJAX_body now r (blur w))"
    by (rule blur_body)
  also have "\<dots> = blur_outcome (pollAJAX_body now r (blur v))"
    unfolding assms ..
  also have "\<dots> = blur_outcome (pollAJAX_body now r v)"
    by (rule blur_body [symmetric])
  finally show ?thesis .
qed

lemma blur_outcome_Done: "blur_outcome out = blur_outcome out' \<Longrightarrow> out = Done w1 \<Longrightarrow> \<exists>v1. out' = Done v1 \<and> blur w1 = blur v1"
  by (cases out') simp_all

lemma blur_outcome_Thrown: "blur_outcome out = blur_outcome out' \<Longrightarrow> out = Thrown e w1 \<Longrightarrow> \<exists>v1. out' = Thrown e v1 \<and> blur w1 = blur v1"
  by (cases out') simp_all

lemma blur_eq_iff:
  "blur w = blur v \<longleftrightarrow>
     map timeless (ajaxList w) = map timeless (ajaxList v)
   \<and> map timeless_event (trace w) = map timeless_event (trace v)
   \<and> reads w = reads v \<and> next_xid w = next_xid v
   \<and> hasXMLHttpRequest w = hasXMLHttpRequest v \<and> hasActiveXObject w = hasActiveXObject v
   \<and> throws w = throws v \<and> hasElement w = hasElement v"
  by (cases w; cases v) (simp add: blur_def)

lemma blur_shift:
  assumes "blur w = blur v" "ajaxList w = q # qw" "ajaxList v = q # qv"
  shows "blur (emit (Shift (Some q)) (w\<lparr>ajaxList := qw\<rparr>)) = blur (emit (Shift (Some q)) (v\<lparr>ajaxList := qv\<rparr>))"
  using assms unfolding blur_eq_iff by simp

lemma blur_iter:
  assumes b: "blur w = blur v" and qw: "ajaxList w = q # qw" and qv: "ajaxList v = q # qv"
  shows "blur_outcome (pollAJAX_iter now w) = blur_outcome (pollAJAX_iter now v)"
  unfolding iter_head [OF qw] iter_head [OF qv]
  by (rule blur_body_cong) (rule blur_shift [OF b qw qv])

lemma iter_queue:
  assumes "ajaxList w = q # qw"
  shows "\<exists>ps. ajaxList (world_of (pollAJAX_iter now w)) = qw @ ps"
  using iter_cons [OF assms, of now] by (elim exE conjE) (rule exI)

lemma blur_loop:
  "ajaxList w = qs @ p \<Longrightarrow> ajaxList v = qs @ p' \<Longrightarrow> blur w = blur v \<Longrightarrow>
   blur_outcome (pollAJAX_loop now (length qs) w) = blur_outcome (pollAJAX_loop now (length qs) v)"
proof (induction qs arbitrary: w v p p')
  case Nil
  then show ?case by simp
next
  case (Cons q qs)
  from Cons.prems have qw: "ajaxList w = q # (qs @ p)" and qv: "ajaxList v = q # (qs @ p')"
    by simp_all
  have i: "blur_outcome (pollAJAX_iter now w) = blur_outcome (pollAJAX_iter now v)"
    using Cons.prems(3) qw qv by (rule blur_iter)
  from iter_queue [OF qw, of now] obtain ps where ps:
    "ajaxList (world_of (pollAJAX_iter now w)) = (qs @ p) @ ps" by (elim exE)
  from iter_queue [OF qv, of now] obtain ps' where ps':
    "ajaxList (world_of (pollAJAX_iter now v)) = (qs @ p') @ ps'" by (elim exE)
  show ?case
  proof (cases "pollAJAX_iter now w")
    case (Done w1)
    from blur_outcome_Done [OF i Done] obtain v1 where
      v1: "pollAJAX_iter now v = Done v1" "blur w1 = blur v1" by (elim exE conjE)
    from ps Done have a: "ajaxList w1 = qs @ (p @ ps)" by simp
    from ps' v1(1) have b: "ajaxList v1 = qs @ (p' @ ps')" by simp
    from Cons.IH [OF a b v1(2)] Done v1(1) show ?thesis by simp
  next
    case (Thrown e w1)
    from blur_outcome_Thrown [OF i Thrown] obtain v1 where
      v1: "pollAJAX_iter now v = Thrown e v1" "blur w1 = blur v1" by (elim exE conjE)
    with Thrown show ?thesis by simp
  qed
qed

lemma blur_emit_cong: "blur w = blur v \<Longrightarrow> blur (emit e w) = blur (emit e v)"
  unfolding blur_eq_iff by simp

lemma blur_pollAJAX:
  assumes "c' (reads w) = clock w (reads w)"
  shows "blur_outcome (pollAJAX (w\<lparr>clock := c'\<rparr>)) = blur_outcome (pollAJAX w)"
proof -
  let ?w1 = "w\<lparr>reads := Suc (reads w)\<rparr>"
  let ?v1 = "w\<lparr>clock := c', reads := Suc (reads w)\<rparr>"
  let ?now = "clock w (reads w)"
  have b: "blur ?v1 = blur ?w1" by (simp add: blur_eq_iff)
  have "ajaxList ?v1 = ajaxList w @ []" "ajaxList ?w1 = ajaxList w @ []" by simp_all
  from blur_loop [OF this b, of ?now]
  have l: "blur_outcome (pollAJAX_loop ?now (length (ajaxList w)) ?v1)
      = blur_outcome (pollAJAX_loop ?now (length (ajaxList w)) ?w1)" .
  have pv: "pollAJAX (w\<lparr>clock := c'\<rparr>) =
     (case pollAJAX_loop ?now (length (ajaxList w)) ?v1 of
        Done w2 \<Rightarrow> Done (emit (SetTimeout ''pollAJAX()'' 10) w2)
      | Thrown e w2 \<Rightarrow> Thrown e w2)"
    using assms by (simp add: pollAJAX_def new_Date_def)
  show ?thesis
  proof (cases "pollAJAX_loop ?now (length (ajaxList w)) ?v1")
    case (Done v2)
    from blur_outcome_Done [OF l Done] obtain w2 where
      w2: "pollAJAX_loop ?now (length (ajaxList w)) ?w1 = Done w2" "blur v2 = blur w2"
      by (elim exE conjE)
    from w2(2) have "blur (emit (SetTimeout ''pollAJAX()'' 10) v2) = blur (emit (SetTimeout ''pollAJAX()'' 10) w2)"
      by (rule blur_emit_cong)
    with Done w2(1) show ?thesis
      unfolding pv pollAJAX_unfold [of w] by simp
  next
    case (Thrown e v2)
    from blur_outcome_Thrown [OF l Thrown] obtain w2 where
      w2: "pollAJAX_loop ?now (length (ajaxList w)) ?w1 = Thrown e w2" "blur v2 = blur w2"
      by (elim exE conjE)
    with Thrown show ?thesis
      unfolding pv pollAJAX_unfold [of w] by simp
  qed
qed

lemma blur_outcome_raised: "blur_outcome out = blur_outcome out' \<Longrightarrow> raised out = raised out'"
  by (cases out; cases out') simp_all

lemma blur_outcome_world: "blur_outcome out = blur_outcome out' \<Longrightarrow> blur (world_of out) = blur (world_of out')"
  by (cases out; cases out') simp_all

lemma blur_trace: "blur w = blur v \<Longrightarrow> map timeless_event (trace w) = map timeless_event (trace v)"
  by (simp add: blur_eq_iff)

lemma blur_queue: "blur w = blur v \<Longrightarrow> map timeless (ajaxList w) = map timeless (ajaxList v)"
  by (simp add: blur_eq_iff)

text \<open>
  C10. \<open>pollAJAX\<close> reads the clock once, when it starts, and every round of its loop
  compares that one reading, \<open>now\<close>, with \<open>lastCalled\<close> of its record. The
  dispatches of the tick are those of the records it reaches at the time \<open>now\<close>,
  and the records it puts back are those that are pending at the time \<open>now\<close>: a
  record it reaches whose transport has not answered is put back exactly when
  \<open>now - lastCalled\<close> is at most 30000, and is dispatched exactly when it is more.
  The clock is read again during the tick, by \<open>newAJAXCommand\<close> for a repeat, but
  those readings decide nothing in the tick: with any other clock that agrees on
  the first reading, the tick raises or returns alike, its trace is the same and its
  queue is the same, up to the time of creation of the records issued during the tick.
\<close>

theorem pollAJAX_one_timestamp:
  assumes w': "w' = world_of (pollAJAX w)" and n: "n = length (shifted (added w w'))"
    and now: "now = clock w (reads w)"
    and c': "c' (reads w) = clock w (reads w)"
  shows "dispatches (added w w') = concat (map (sink_events now (hasElement w)) (take n (ajaxList w)))
     \<and> filter (older (next_xid w)) (pushed (added w w'))
         = filter (\<lambda>r. pending now r \<and> older (next_xid w) r) (take n (ajaxList w))
     \<and> (\<forall>k<n. \<forall>x. ajaxReq (ajaxList w ! k) = Some x \<and> \<not> (readyState x = 4 \<and> status x = 200)
            \<and> xid x < next_xid w \<longrightarrow>
          (ajaxList w ! k \<in> set (pushed (added w w')) \<longleftrightarrow> now - lastCalled (ajaxList w ! k) \<le> 30000)
        \<and> (sink_events now (hasElement w) (ajaxList w ! k) \<noteq> [] \<longleftrightarrow> 30000 < now - lastCalled (ajaxList w ! k)))
     \<and> raised (pollAJAX (w\<lparr>clock := c'\<rparr>)) = raised (pollAJAX w)
     \<and> map timeless_event (trace (world_of (pollAJAX (w\<lparr>clock := c'\<rparr>))))
         = map timeless_event (trace (world_of (pollAJAX w)))
     \<and> map timeless (ajaxList (world_of (pollAJAX (w\<lparr>clock := c'\<rparr>))))
         = map timeless (ajaxList (world_of (pollAJAX w)))"
proof -
  note R = pollAJAX_rounds [OF w' n now]
  note b = blur_pollAJAX [of c' w, OF c']
  have each: "(ajaxList w ! k \<in> set (pushed (added w w')) \<longleftrightarrow> now - lastCalled (ajaxList w ! k) \<le> 30000)
        \<and> (sink_events now (hasElement w) (ajaxList w ! k) \<noteq> [] \<longleftrightarrow> 30000 < now - lastCalled (ajaxList w ! k))"
    if k: "k < n" and x: "ajaxReq (ajaxList w ! k) = Some x" and u: "\<not> (readyState x = 4 \<and> status x = 200)"
      and i: "xid x < next_xid w" for k x
  proof -
    define r where "r = ajaxList w ! k"
    from k R(1) have "take n (ajaxList w) ! k = r" "k < length (take n (ajaxList w))"
      by (simp_all add: r_def)
    then have mem: "r \<in> set (take n (ajaxList w))"
      by (metis nth_mem)
    from x i have o: "older (next_xid w) r"
      by (simp add: older_def r_def)
    have "r \<in> set (pushed (added w w')) \<longleftrightarrow> r \<in> set (filter (older (next_xid w)) (pushed (added w w')))"
      using o by simp
    also have "\<dots> \<longleftrightarrow> pending now r"
      unfolding R(3) using mem o by simp
    also have "\<dots> \<longleftrightarrow> now - lastCalled r \<le> 30000"
      using x u by (auto simp: pending_def r_def)
    finally have 1: "r \<in> set (pushed (added w w')) \<longleftrightarrow> now - lastCalled r \<le> 30000" .
    have 2: "sink_events now (hasElement w) r \<noteq> [] \<longleftrightarrow> 30000 < now - lastCalled r"
      using x u by (auto simp: sink_events_def r_def split: jsval.splits)
    from 1 2 show ?thesis
      unfolding r_def by (rule conjI)
  qed
  then have every: "\<forall>k<n. \<forall>x. ajaxReq (ajaxList w ! k) = Some x \<and> \<not> (readyState x = 4 \<and> status x = 200)
            \<and> xid x < next_xid w \<longrightarrow>
          (ajaxList w ! k \<in> set (pushed (added w w')) \<longleftrightarrow> now - lastCalled (ajaxList w ! k) \<le> 30000)
        \<and> (sink_events now (hasElement w) (ajaxList w ! k) \<noteq> [] \<longleftrightarrow> 30000 < now - lastCalled (ajaxList w ! k))"
    by (intro allI impI) (elim conjE)
  from R(2) R(3) every blur_outcome_raised [OF b] blur_trace [OF blur_outcome_world [OF b]]
    blur_queue [OF blur_outcome_world [OF b]]
  show ?thesis by (intro conjI)
qed

text \<open>
  A tick at 30050 over a record issued at 0, with a repeat, and a record issued at 100,
  on a page whose clock reads 999999 from the second reading on. The first record
  is timed out and issued again, at 999999; the second, for which 29950 ms have
  elapsed at the start of the tick, is put back.
\<close>

theorem pollAJAX_one_timestamp_witness:
  "trace (world_of (pollAJAX ((page 30050 [command ''a'' (JFunction 0) True (Some (in_flight 0)),
        (command ''b'' (JString ''RT'') False (Some (in_flight 1)))\<lparr>lastCalled := 100\<rparr>])
        \<lparr>clock := (\<lambda>n. if n = 0 then 30050 else 999999)\<rparr>)))
     = [Shift (Some (command ''a'' (JFunction 0) True (Some (in_flight 0)))),
        Call 0 None, Abort 0, Open 10 ''a'', Send 10 None,
        Push \<lparr>url = ''a'', container = JFunction 0, repeat = True, ajaxReq = Some (in_flight 10),
          lastCalled = 999999\<rparr>,
        Shift (Some ((command ''b'' (JString ''RT'') False (Some (in_flight 1)))\<lparr>lastCalled := 100\<rparr>)),
        Push ((command ''b'' (JString ''RT'') False (Some (in_flight 1)))\<lparr>lastCalled := 100\<rparr>),
        SetTimeout ''pollAJAX()'' 10]
   \<and> dispatches (added
        (page 30050 [command ''a'' (JFunction 0) True (Some (in_flight 0)),
          (command ''b'' (JString ''RT'') False (Some (in_flight 1)))\<lparr>lastCalled := 100\<rparr>])
        (world_of (pollAJAX (page 30050 [command ''a'' (JFunction 0) True (Some (in_flight 0)),
          (command ''b'' (JString ''RT'') False (Some (in_flight 1)))\<lparr>lastCalled := 100\<rparr>]))))
     = [Call 0 None]
   \<and> (command ''b'' (JString ''RT'') False (Some (in_flight 1)))\<lparr>lastCalled := 100\<rparr>
       \<in> set (pushed (added
        (page 30050 [command ''a'' (JFunction 0) True (Some (in_flight 0)),
          (command ''b'' (JString ''RT'') False (Some (in_flight 1)))\<lparr>lastCalled := 100\<rparr>])
        (world_of (pollAJAX (page 30050 [command ''a'' (JFunction 0) True (Some (in_flight 0)),
          (command ''b'' (JString ''RT'') False (Some (in_flight 1)))\<lparr>lastCalled := 100\<rparr>])))))
   \<and> raised (pollAJAX ((page 30050 [command ''a'' (JFunction 0) True (Some (in_flight 0)),
        (command ''b'' (JString ''RT'') False (Some (in_flight 1)))\<lparr>lastCalled := 100\<rparr>])
        \<lparr>clock := (\<lambda>n. if n = 0 then 30050 else 999999)\<rparr>))
     = raised (pollAJAX (page 30050 [command ''a'' (JFunction 0) True (Some (in_flight 0)),
        (command ''b'' (JString ''RT'') False (Some (in_flight 1)))\<lparr>lastCalled := 100\<rparr>]))"
proof -
  define w where "w = page 30050 [command ''a'' (JFunction 0) True (Some (in_flight 0)),
        (command ''b'' (JString ''RT'') False (Some (in_flight 1)))\<lparr>lastCalled := 100\<rparr>]"
  let ?b = "(command ''b'' (JString ''RT'') False (Some (in_flight 1)))\<lparr>lastCalled := 100\<rparr>"
  let ?c = "\<lambda>n::nat. if n = 0 then (30050::int) else 999999"
  have tr: "trace (world_of (pollAJAX (w\<lparr>clock := ?c\<rparr>)))
     = [Shift (Some (command ''a'' (JFunction 0) True (Some (in_flight 0)))),
        Call 0 None, Abort 0, Open 10 ''a'', Send 10 None,
        Push \<lparr>url = ''a'', container = JFunction 0, repeat = True, ajaxReq = Some (in_flight 10),
          lastCalled = 999999\<rparr>,
        Shift (Some ?b), Push ?b, SetTimeout ''pollAJAX()'' 10]"
    unfolding w_def by (simp add: script_defs example_defs)
  have n: "length (shifted (added w (world_of (pollAJAX w)))) = 2"
    unfolding w_def by (simp add: script_defs example_defs)
  have c: "?c (reads w) = clock w (reads w)"
    unfolding w_def by (simp add: page_def)
  have s: "concat (map (sink_events (clock w (reads w)) (hasElement w)) (take 2 (ajaxList w))) = [Call 0 None]"
    unfolding w_def by (simp add: sink_events_def example_defs)
  have r: "ajaxList w ! 1 = ?b"
    unfolding w_def by (simp add: page_def)
  have x: "ajaxReq ?b = Some (in_flight 1) \<and> \<not> (readyState (in_flight 1) = 4 \<and> status (in_flight 1) = 200)
      \<and> xid (in_flight 1) < next_xid w"
    unfolding w_def by (simp add: page_def command_def in_flight_def)
  have e: "clock w (reads w) - lastCalled ?b \<le> 30000"
    unfolding w_def by (simp add: page_def command_def)
  note T = pollAJAX_one_timestamp [where c' = ?c and w = w, OF refl refl refl c]
  from T n s have d: "dispatches (added w (world_of (pollAJAX w))) = [Call 0 None]"
    by simp
  note Q = T [THEN conjunct2, THEN conjunct2, THEN conjunct1, rule_format, of 1 "in_flight 1"]
  from Q n r x e have p: "?b \<in> set (pushed (added w (world_of (pollAJAX w))))"
    by simp
  from T have ra: "raised (pollAJAX (w\<lparr>clock := ?c\<rparr>)) = raised (pollAJAX w)"
    by simp
  from tr d p ra show ?thesis
    unfolding w_def by (intro conjI)
qed

end
